theory Spec2Isabelle
  imports Complex_Main "HOL-Library.AList"
begin

section \<open>JavaScript values\<close>

text \<open>
  The values a frame field can hold after \<^verbatim>\<open>JSON.parse\<close>.  A finite number (a binary64
  double) is the rational it denotes; \<^verbatim>\<open>NaN\<close> is a number of its own and the infinities
  are left out.  Comparisons of doubles, \<^verbatim>\<open>Math.min\<close>, \<^verbatim>\<open>Math.floor\<close> and \<^verbatim>\<open>Math.ceil\<close> are
  exact, and so is \<^verbatim>\<open>++\<close> on an integer below \<open>2^53\<close>.  Strings are lists of one-byte
  characters.
\<close>

datatype js_value =
    JSUndefined
  | JSNull
  | JSBool bool
  | JSNaN
  | JSNumber rat
  | JSString string

text \<open>Truthiness of a string-or-null value: \<^verbatim>\<open>null\<close>, \<^verbatim>\<open>undefined\<close> and \<^verbatim>\<open>''\<close> are falsy.\<close>

fun truthy :: "string option \<Rightarrow> bool" where
  "truthy None = False"
| "truthy (Some s) = (s \<noteq> [])"

text \<open>\<^verbatim>\<open>a || b\<close> on string-or-null values.\<close>

definition js_or :: "string option \<Rightarrow> string option \<Rightarrow> string option" where
  "js_or a b = (if truthy a then a else b)"

subsection \<open>Floating-point arithmetic\<close>

text \<open>
  \<^verbatim>\<open>+\<close>, \<^verbatim>\<open>-\<close>, \<^verbatim>\<open>*\<close> and \<^verbatim>\<open>Math.pow\<close> on doubles return the exact result rounded to a
  double (\<^verbatim>\<open>Math.pow\<close>: an approximation the engine chooses).  The rounding is not
  modelled: the four operations are a parameter of every function that computes with
  them, and nothing is proved of a result but where it is stated to be exact.
  \<open>exact_arith\<close> is the arithmetic that never rounds; it is what the engine computes at
  operands whose exact result is a double.
\<close>

record arith =
  js_add :: "rat \<Rightarrow> rat \<Rightarrow> rat"
  js_sub :: "rat \<Rightarrow> rat \<Rightarrow> rat"
  js_mul :: "rat \<Rightarrow> rat \<Rightarrow> rat"
  js_pow :: "rat \<Rightarrow> nat \<Rightarrow> rat"

definition exact_arith :: arith where
  "exact_arith = \<lparr>js_add = (+), js_sub = (-), js_mul = (*), js_pow = (^)\<rparr>"

text \<open>A non-negative integer below \<open>2^53\<close>: every such number is a double.\<close>

definition safeInteger :: "rat \<Rightarrow> bool" where
  "safeInteger x = (x = of_int \<lfloor>x\<rfloor> \<and> 0 \<le> x \<and> x < 2 ^ 53)"

text \<open>
  \<^verbatim>\<open>a - b\<close>.  When both are non-negative integers below \<open>2^53\<close> and \<open>b \<le> a\<close>, the
  difference is such an integer again, hence a double, and the subtraction is exact;
  otherwise the result is the engine's.
\<close>

definition minus64 :: "arith \<Rightarrow> rat \<Rightarrow> rat \<Rightarrow> rat" where
  "minus64 A a b =
     (if safeInteger a \<and> safeInteger b \<and> b \<le> a then a - b else js_sub A a b)"

section \<open>MessageProcessor (src/unnamed/part_002)\<close>

subsection \<open>Frames, messages, events\<close>

text \<open>
  A raw frame is a JSON object.  A field that is absent is \<open>None\<close>; \<^verbatim>\<open>'type' in raw\<close> is
  \<open>r_type raw \<noteq> None\<close>.  The payload extensions (media, quick replies, metadata,
  persisted) are opaque strings; a list message is its \<^verbatim>\<open>list_items\<close>, a CTA message its
  \<^verbatim>\<open>url\<close> and \<^verbatim>\<open>display_text\<close>.
\<close>

record raw_message =
  m_messageId :: "string option"
  m_type :: "string option"
  m_text :: "string option"
  m_media :: "string option"
  m_quick_replies :: "string option"
  m_list_message :: "string list option"
  m_cta_message :: "(string \<times> string) option"

record raw_frame =
  r_type :: "string option"
  r_v :: "string option"
  r_seq :: "js_value option"
  r_id :: "string option"
  r_message :: "raw_message option"
  r_from :: "string option"
  r_timestamp :: "nat option"
  r_persisted :: "string option"
  r_metadata :: "string option"

datatype direction = Incoming | Outgoing

datatype status = Pending | Sent | Delivered | Streaming | Failed

record message =
  msg_id :: "string option"
  msg_type :: string
  msg_timestamp :: nat
  msg_direction :: direction
  msg_status :: status
  msg_persisted :: "string option"
  msg_text :: "string option"
  msg_media :: "string option"
  msg_quick_replies :: "string option"
  msg_list_message :: "string list option"
  msg_cta_message :: "(string \<times> string) option"
  msg_metadata :: "string option"

text \<open>
  The events of \<^verbatim>\<open>SERVICE_EVENTS\<close> the processor emits.  \<open>MESSAGE_UPDATED id text status
  timestamp\<close> is \<^verbatim>\<open>emit(MESSAGE_UPDATED, id, {text, status, timestamp})\<close>.
\<close>

datatype event =
    MESSAGE_PROCESSED message
  | MESSAGE_UPDATED "string option" string status nat
  | MESSAGE_UNKNOWN raw_frame
  | ERROR string
  | TYPING_START
  | TYPING_STOP
  | THINKING_START
  | THINKING_STOP

text \<open>An armed \<^verbatim>\<open>setTimeout\<close> held in \<^verbatim>\<open>typingTimer\<close>: what it will do, and after how long.\<close>

datatype timer = StopTypingAfter nat | StartTypingAfter nat

record stream =
  s_text :: string
  s_timestamp :: nat

text \<open>
  The processor's fields, and \<open>emitted\<close>: the calls of \<^verbatim>\<open>this.emit\<close> so far, oldest first.
  \<^verbatim>\<open>streams\<close> is a \<^verbatim>\<open>Map\<close> whose key can be \<^verbatim>\<open>null\<close> (\<open>None\<close>); \<^verbatim>\<open>pendingDeltas\<close> is a
  \<^verbatim>\<open>Map\<close> from numbers to chunks, kept as an association list with unique keys.
\<close>

record processor =
  messageDelay :: nat
  typingDelay :: nat
  enableTypingIndicator :: bool
  typingTimeout :: nat
  queue :: "message list"
  isProcessing :: bool
  typingTimer :: "timer option"
  isTypingActive :: bool
  isThinkingActive :: bool
  streams :: "string option \<rightharpoonup> stream"
  recentIncomingTexts :: "string list"
  activeStreamId :: "string option"
  pendingDeltas :: "(rat \<times> string) list"
  nextExpectedSeq :: rat
  streamMessageEmitted :: bool
  emitted :: "event list"

text \<open>
  What a call reads from outside: \<^verbatim>\<open>Date.now()\<close> (one reading for the whole call) and
  the id \<^verbatim>\<open>generateMessageId()\<close> would return.
\<close>

record env =
  env_now :: nat
  env_fresh_id :: string

text \<open>
  Modelled from the spec: the constants file (\<^verbatim>\<open>utils/constants\<close>) is not among the
  sources.  The spec gives sequence numbers starting at 1 and stream ids prefixed
  \<^verbatim>\<open>msg_\<close>; the tests agree (\<^verbatim>\<open>_isValidSequenceNumber(1)\<close> holds, \<^verbatim>\<open>(0)\<close> does not).
\<close>

definition STREAM_INITIAL_SEQUENCE :: rat where
  "STREAM_INITIAL_SEQUENCE = 1"

definition MESSAGE_ID_PREFIX :: string where
  "MESSAGE_ID_PREFIX = ''msg_''"

subsection \<open>Operations\<close>

definition emit :: "event \<Rightarrow> processor \<Rightarrow> processor" where
  "emit e s = s\<lparr>emitted := emitted s @ [e]\<rparr>"

definition resetStreamState :: "string option \<Rightarrow> processor \<Rightarrow> processor" where
  "resetStreamState streamId s =
     s\<lparr>activeStreamId := streamId, pendingDeltas := [],
       nextExpectedSeq := STREAM_INITIAL_SEQUENCE, streamMessageEmitted := False\<rparr>"

text \<open>The processor as the constructor leaves it, for a given configuration.\<close>

definition new_processor :: "nat \<Rightarrow> nat \<Rightarrow> bool \<Rightarrow> nat \<Rightarrow> processor" where
  "new_processor md td en tt =
     \<lparr>messageDelay = md, typingDelay = td, enableTypingIndicator = en, typingTimeout = tt,
      queue = [], isProcessing = False, typingTimer = None,
      isTypingActive = False, isThinkingActive = False,
      streams = Map.empty, recentIncomingTexts = [],
      activeStreamId = None, pendingDeltas = [],
      nextExpectedSeq = STREAM_INITIAL_SEQUENCE, streamMessageEmitted = False,
      emitted = []\<rparr>"

definition extractMessageType :: "raw_frame \<Rightarrow> string" where
  "extractMessageType raw =
     (if r_v raw \<noteq> None \<and> r_seq raw \<noteq> None \<and> r_type raw = None then ''delta''
      else if truthy (r_type raw) then (case r_type raw of Some t \<Rightarrow> t | None \<Rightarrow> ''unknown'')
      else (case r_message raw of
              Some m \<Rightarrow> (case m_type m of
                           Some t \<Rightarrow> (if t \<noteq> [] then t else ''unknown'')
                         | None \<Rightarrow> ''unknown'')
            | None \<Rightarrow> ''unknown''))"

definition getMessageIdFromRaw :: "raw_frame \<Rightarrow> string option" where
  "getMessageIdFromRaw raw =
     (case js_or (case r_message raw of Some m \<Rightarrow> m_messageId m | None \<Rightarrow> None) (r_id raw) of
        Some i \<Rightarrow> (if i \<noteq> [] then Some (MESSAGE_ID_PREFIX @ i) else None)
      | None \<Rightarrow> None)"

text \<open>The part of \<^verbatim>\<open>_getMessageType\<close> that looks into \<^verbatim>\<open>raw.message\<close>.\<close>

definition innerMessageType :: "raw_frame \<Rightarrow> string" where
  "innerMessageType raw =
     (case r_message raw of
        Some m \<Rightarrow> (case m_type m of
                     Some u \<Rightarrow> (if u \<noteq> [] then u
                                else if truthy (m_text m) then ''text''
                                else if truthy (m_media m) then ''media''
                                else ''text'')
                   | None \<Rightarrow> (if truthy (m_text m) then ''text''
                              else if truthy (m_media m) then ''media''
                              else ''text''))
      | None \<Rightarrow> ''text'')"

definition getMessageType :: "raw_frame \<Rightarrow> string" where
  "getMessageType raw =
     (case r_type raw of
        Some t \<Rightarrow> (if t \<noteq> [] then t else innerMessageType raw)
      | None \<Rightarrow> innerMessageType raw)"

text \<open>A field of \<^verbatim>\<open>raw.message\<close> copied only when it is truthy.\<close>

definition truthy_field :: "raw_frame \<Rightarrow> (raw_message \<Rightarrow> string option) \<Rightarrow> string option" where
  "truthy_field raw f =
     (case r_message raw of
        Some m \<Rightarrow> (if truthy (f m) then f m else None)
      | None \<Rightarrow> None)"

definition normalizeMessage :: "env \<Rightarrow> raw_frame \<Rightarrow> message" where
  "normalizeMessage e raw =
     \<lparr>msg_id = js_or (js_or (case r_message raw of Some m \<Rightarrow> m_messageId m | None \<Rightarrow> None)
                            (r_id raw)) (Some (env_fresh_id e)),
      msg_type = getMessageType raw,
      msg_timestamp = (case r_timestamp raw of
                         Some t \<Rightarrow> (if t \<noteq> 0 then t else env_now e)
                       | None \<Rightarrow> env_now e),
      msg_direction = Incoming,
      msg_status = Delivered,
      msg_persisted = (if truthy (r_persisted raw) then r_persisted raw else None),
      msg_text = truthy_field raw m_text,
      msg_media = truthy_field raw m_media,
      msg_quick_replies = truthy_field raw m_quick_replies,
      msg_list_message =
        (case r_message raw of
           Some m \<Rightarrow> (case m_list_message m of
                        Some items \<Rightarrow> (if length items \<ge> 1 then Some items else None)
                      | None \<Rightarrow> None)
         | None \<Rightarrow> None),
      msg_cta_message =
        (case r_message raw of
           Some m \<Rightarrow> (case m_cta_message m of
                        Some (url, display_text) \<Rightarrow>
                          (if url \<noteq> [] \<and> display_text \<noteq> [] then Some (url, display_text)
                           else None)
                      | None \<Rightarrow> None)
         | None \<Rightarrow> None),
      msg_metadata = (if truthy (r_metadata raw) then r_metadata raw else None)\<rparr>"

definition validateMessage :: "message \<Rightarrow> bool" where
  "validateMessage m = (msg_type m \<noteq> [])"

text \<open>
  \<^verbatim>\<open>_processQueue\<close> up to its first \<^verbatim>\<open>await\<close>: an \<^verbatim>\<open>async\<close> function runs synchronously
  until then.  It takes the head of the queue and emits it; when more messages wait it
  suspends on the inter-message delay with \<^verbatim>\<open>isProcessing\<close> still set.
\<close>

definition processQueue :: "processor \<Rightarrow> processor" where
  "processQueue s =
     (if isProcessing s then s
      else (case queue s of
              [] \<Rightarrow> s
            | m # rest \<Rightarrow>
                (let s1 = emit (MESSAGE_PROCESSED m) (s\<lparr>isProcessing := True, queue := rest\<rparr>)
                 in if rest \<noteq> [] then s1 else s1\<lparr>isProcessing := False\<rparr>)))"

definition stopTyping :: "processor \<Rightarrow> processor" where
  "stopTyping s =
     (let s1 = (if typingTimer s \<noteq> None then s\<lparr>typingTimer := None\<rparr> else s);
          s2 = (if isTypingActive s1 then emit TYPING_STOP (s1\<lparr>isTypingActive := False\<rparr>)
                else s1)
      in if isThinkingActive s2 then emit THINKING_STOP (s2\<lparr>isThinkingActive := False\<rparr>)
         else s2)"

definition isDuplicateIncomingText :: "string \<Rightarrow> processor \<Rightarrow> bool" where
  "isDuplicateIncomingText t s = (if t = [] then False else t \<in> set (recentIncomingTexts s))"

definition rememberIncomingText :: "string \<Rightarrow> processor \<Rightarrow> processor" where
  "rememberIncomingText t s =
     (if t = [] then s
      else (let l = recentIncomingTexts s @ [t]
            in s\<lparr>recentIncomingTexts := (if length l > 5 then drop (length l - 5) l else l)\<rparr>))"

definition processUserMessage :: "env \<Rightarrow> raw_frame \<Rightarrow> processor \<Rightarrow> processor" where
  "processUserMessage e raw s =
     (let m = normalizeMessage e raw in
      if \<not> validateMessage m then emit (ERROR ''Invalid message format'') s
      else
        (let s1 = (if msg_direction m = Incoming \<and> (isTypingActive s \<or> isThinkingActive s)
                   then stopTyping s else s)
         in if msg_type m = ''message'' \<and> msg_direction m = Incoming \<and>
               (case msg_text m of Some t \<Rightarrow> isDuplicateIncomingText t s1 | None \<Rightarrow> False)
            then s1
            else processQueue (s1\<lparr>queue := queue s1 @ [m]\<rparr>)))"

definition processStreamStart :: "env \<Rightarrow> raw_frame \<Rightarrow> processor \<Rightarrow> processor" where
  "processStreamStart e raw s =
     (case getMessageIdFromRaw raw of
        None \<Rightarrow> emit (ERROR ''stream_start received without id'') s
      | Some mid \<Rightarrow>
          (let s1 = resetStreamState (Some mid) s
           in s1\<lparr>streams := (streams s1)(Some mid \<mapsto> \<lparr>s_text = [], s_timestamp = env_now e\<rparr>)\<rparr>))"

text \<open>\<^verbatim>\<open>typeof seq === 'number' && seq >= STREAM_INITIAL_SEQUENCE\<close>; every comparison with
  \<^verbatim>\<open>NaN\<close> is false.\<close>

fun isValidSequenceNumber :: "js_value \<Rightarrow> bool" where
  "isValidSequenceNumber (JSNumber q) = (q \<ge> STREAM_INITIAL_SEQUENCE)"
| "isValidSequenceNumber _ = False"

definition isFirstDelta :: "rat \<Rightarrow> processor \<Rightarrow> bool" where
  "isFirstDelta seq s =
     (nextExpectedSeq s = STREAM_INITIAL_SEQUENCE \<and> seq \<ge> STREAM_INITIAL_SEQUENCE)"

definition createStreamingMessage :: "string option \<Rightarrow> nat \<Rightarrow> message" where
  "createStreamingMessage i ts =
     \<lparr>msg_id = i, msg_type = ''text'', msg_timestamp = ts, msg_direction = Incoming,
      msg_status = Streaming, msg_persisted = None, msg_text = Some [], msg_media = None,
      msg_quick_replies = None, msg_list_message = None, msg_cta_message = None,
      msg_metadata = None\<rparr>"

definition initializeSyntheticStream :: "env \<Rightarrow> raw_frame \<Rightarrow> processor \<Rightarrow> processor" where
  "initializeSyntheticStream e raw s =
     (let messageId = getMessageIdFromRaw raw;
          s1 = (resetStreamState messageId s)\<lparr>streamMessageEmitted := True\<rparr>;
          s2 = s1\<lparr>streams := (streams s1)(messageId \<mapsto> \<lparr>s_text = [], s_timestamp = env_now e\<rparr>)\<rparr>
      in processQueue (s2\<lparr>queue := queue s2 @ [createStreamingMessage messageId (env_now e)]\<rparr>))"

definition emitDeferredStreamMessage :: "env \<Rightarrow> processor \<Rightarrow> processor" where
  "emitDeferredStreamMessage e s =
     (let streamId = activeStreamId s;
          ts = (case streams s streamId of
                  Some d \<Rightarrow> (if s_timestamp d \<noteq> 0 then s_timestamp d else env_now e)
                | None \<Rightarrow> env_now e);
          s1 = s\<lparr>streamMessageEmitted := True\<rparr>
      in processQueue (s1\<lparr>queue := queue s1 @ [createStreamingMessage streamId ts]\<rparr>))"

definition handleFirstDelta :: "env \<Rightarrow> processor \<Rightarrow> processor" where
  "handleFirstDelta e s =
     (let s1 = (if isTypingActive s \<or> isThinkingActive s then stopTyping s else s)
      in if \<not> streamMessageEmitted s1 then emitDeferredStreamMessage e s1 else s1)"

definition appendStreamContent :: "env \<Rightarrow> string option \<Rightarrow> string \<Rightarrow> processor \<Rightarrow> processor" where
  "appendStreamContent e streamId content s =
     (case streams s streamId of
        None \<Rightarrow> s
      | Some current \<Rightarrow>
          (let mergedText = s_text current @ content
           in emit (MESSAGE_UPDATED streamId mergedText Streaming (env_now e))
                (s\<lparr>streams := (streams s)(streamId \<mapsto>
                     \<lparr>s_text = mergedText, s_timestamp = env_now e\<rparr>)\<rparr>)))"

text \<open>One turn of the \<^verbatim>\<open>while\<close> loop of \<^verbatim>\<open>_applyPendingDeltas\<close>, for the chunk found under
  \<^verbatim>\<open>nextExpectedSeq\<close>.\<close>

definition applyPendingStep :: "env \<Rightarrow> string option \<Rightarrow> string \<Rightarrow> processor \<Rightarrow> processor" where
  "applyPendingStep e streamId content s =
     (let s1 = s\<lparr>pendingDeltas := AList.delete (nextExpectedSeq s) (pendingDeltas s)\<rparr>;
          s2 = appendStreamContent e streamId content s1
      in s2\<lparr>nextExpectedSeq := nextExpectedSeq s2 + 1\<rparr>)"

lemma pendingDeltas_appendStreamContent [simp]:
  "pendingDeltas (appendStreamContent e i c s) = pendingDeltas s"
  by (simp add: appendStreamContent_def emit_def Let_def split: option.splits)

lemma nextExpectedSeq_appendStreamContent [simp]:
  "nextExpectedSeq (appendStreamContent e i c s) = nextExpectedSeq s"
  by (simp add: appendStreamContent_def emit_def Let_def split: option.splits)

lemma length_delete_present:
  "map_of al k = Some v \<Longrightarrow> length (AList.delete k al) < length al"
  by (induction al) (auto simp: less_Suc_eq_le AList.length_delete_le split: if_splits)

function applyPendingDeltas :: "env \<Rightarrow> string option \<Rightarrow> processor \<Rightarrow> processor" where
  "applyPendingDeltas e streamId s =
     (case map_of (pendingDeltas s) (nextExpectedSeq s) of
        None \<Rightarrow> s
      | Some content \<Rightarrow> applyPendingDeltas e streamId (applyPendingStep e streamId content s))"
  by pat_completeness auto
termination
  by (relation "measure (\<lambda>(e, i, s). length (pendingDeltas s))")
     (auto simp: applyPendingStep_def Let_def length_delete_present)

declare applyPendingDeltas.simps [simp del]

definition processDeltaSequence :: "env \<Rightarrow> rat \<Rightarrow> string \<Rightarrow> processor \<Rightarrow> processor" where
  "processDeltaSequence e seq content s =
     (let streamId = activeStreamId s in
      if seq = nextExpectedSeq s then
        (let s1 = appendStreamContent e streamId content s;
             s2 = s1\<lparr>nextExpectedSeq := nextExpectedSeq s1 + 1\<rparr>
         in applyPendingDeltas e streamId s2)
      else if seq > nextExpectedSeq s then
        s\<lparr>pendingDeltas := AList.update seq content (pendingDeltas s)\<rparr>
      else s)"

definition processDelta :: "env \<Rightarrow> raw_frame \<Rightarrow> processor \<Rightarrow> processor" where
  "processDelta e raw s =
     (let seq = (case r_seq raw of Some v \<Rightarrow> v | None \<Rightarrow> JSUndefined);
          content = (case r_v raw of Some v \<Rightarrow> v | None \<Rightarrow> [])
      in if \<not> isValidSequenceNumber seq then s
         else (case seq of
                 JSNumber q \<Rightarrow>
                   (let s1 = (if \<not> truthy (activeStreamId s)
                              then initializeSyntheticStream e raw s else s);
                        s2 = (if isFirstDelta q s1 then handleFirstDelta e s1 else s1)
                    in processDeltaSequence e q content s2)
               | _ \<Rightarrow> s))"

definition cleanupStream :: "string option \<Rightarrow> processor \<Rightarrow> processor" where
  "cleanupStream messageId s =
     (let s1 = s\<lparr>streams := (streams s)(messageId := None)\<rparr>
      in if activeStreamId s1 = messageId then resetStreamState None s1 else s1)"

definition processStreamEnd :: "env \<Rightarrow> raw_frame \<Rightarrow> processor \<Rightarrow> processor" where
  "processStreamEnd e raw s =
     (case getMessageIdFromRaw raw of
        None \<Rightarrow> emit (ERROR ''stream_end received without id'') s
      | Some mid \<Rightarrow>
          (let s1 = (if isTypingActive s \<or> isThinkingActive s then stopTyping s else s);
               finalText = (case streams s1 (Some mid) of Some d \<Rightarrow> s_text d | None \<Rightarrow> []);
               s2 = emit (MESSAGE_UPDATED (Some mid) finalText Delivered (env_now e)) s1;
               s3 = cleanupStream (Some mid) s2
           in rememberIncomingText finalText s3))"

definition handleTypingIndicator :: "raw_frame \<Rightarrow> processor \<Rightarrow> processor" where
  "handleTypingIndicator rawMessage s =
     (if \<not> enableTypingIndicator s then s
      else if truthy (activeStreamId s) \<and> nextExpectedSeq s > STREAM_INITIAL_SEQUENCE then s
      else
        (let s1 = (if typingTimer s \<noteq> None then s\<lparr>typingTimer := None\<rparr> else s);
             s2 = (if r_from rawMessage = Some ''ai-assistant''
                   then emit THINKING_START (s1\<lparr>isThinkingActive := True\<rparr>)
                   else emit TYPING_START (s1\<lparr>isTypingActive := True\<rparr>))
         in s2\<lparr>typingTimer := Some (StopTypingAfter (typingTimeout s2))\<rparr>))"

definition startTypingOnMessageSent :: "processor \<Rightarrow> processor" where
  "startTypingOnMessageSent s =
     (if \<not> enableTypingIndicator s then s
      else s\<lparr>typingTimer := Some (StartTypingAfter (typingDelay s))\<rparr>)"

text \<open>The callback of the armed \<^verbatim>\<open>typingTimer\<close>, when its delay has passed.\<close>

definition typingTimerFires :: "processor \<Rightarrow> processor" where
  "typingTimerFires s =
     (case typingTimer s of
        None \<Rightarrow> s
      | Some (StopTypingAfter d) \<Rightarrow> stopTyping s
      | Some (StartTypingAfter d) \<Rightarrow>
          (if \<not> isTypingActive s \<and> \<not> isThinkingActive s
           then emit TYPING_START (s\<lparr>isTypingActive := True\<rparr>) else s))"

text \<open>\<^verbatim>\<open>_processQueue\<close> resumed after its \<^verbatim>\<open>await\<close>: the next turn of the loop.\<close>

definition processQueueResumes :: "processor \<Rightarrow> processor" where
  "processQueueResumes s =
     (case queue s of
        [] \<Rightarrow> s\<lparr>isProcessing := False\<rparr>
      | m # rest \<Rightarrow>
          (let s1 = emit (MESSAGE_PROCESSED m) (s\<lparr>queue := rest\<rparr>)
           in if rest \<noteq> [] then s1 else s1\<lparr>isProcessing := False\<rparr>))"

definition clearQueue :: "processor \<Rightarrow> processor" where
  "clearQueue s = s\<lparr>queue := [], isProcessing := False\<rparr>"

text \<open>\<^verbatim>\<open>process\<close>: route the frame by its type.  No handler throws on a frame that is an
  object, so the \<^verbatim>\<open>catch\<close> branch is never taken.\<close>

definition process :: "env \<Rightarrow> raw_frame \<Rightarrow> processor \<Rightarrow> processor" where
  "process e rawMessage s =
     (let messageType = extractMessageType rawMessage in
      if messageType = ''message'' then processUserMessage e rawMessage s
      else if messageType = ''stream_start'' then processStreamStart e rawMessage s
      else if messageType = ''delta'' then processDelta e rawMessage s
      else if messageType = ''stream_end'' then processStreamEnd e rawMessage s
      else if messageType = ''typing_start'' then handleTypingIndicator rawMessage s
      else emit (MESSAGE_UNKNOWN rawMessage) s)"

text \<open>\<^verbatim>\<open>processBatch\<close>: the frames in order, each with the clock and id it reads.\<close>

fun processBatch :: "(env \<times> raw_frame) list \<Rightarrow> processor \<Rightarrow> processor" where
  "processBatch [] s = s"
| "processBatch ((e, raw) # rest) s = processBatch rest (process e raw s)"

section \<open>RetryStrategy (src/src/types/index.d.ts, second document)\<close>

text \<open>
  The configuration as the constructor leaves it.  \<open>A\<close> below is the engine's arithmetic
  and \<open>u\<close> the value \<^verbatim>\<open>Math.random()\<close> returns, \<open>0 \<le> u < 1\<close>.
\<close>

record retry_strategy =
  baseDelay :: rat
  maxDelay :: rat
  factor :: rat
  jitter :: bool
  maxJitter :: rat
  attempts :: nat

definition addJitter :: "arith \<Rightarrow> retry_strategy \<Rightarrow> rat \<Rightarrow> rat \<Rightarrow> rat" where
  "addJitter A r u delay =
     (let jitterAmount = js_mul A u (min delay (maxJitter r))
      in js_add A delay jitterAmount)"

definition getDelay :: "arith \<Rightarrow> retry_strategy \<Rightarrow> nat option \<Rightarrow> rat \<Rightarrow> int" where
  "getDelay A r attempt u =
     (let attemptNumber = (case attempt of Some a \<Rightarrow> a | None \<Rightarrow> attempts r);
          exponentialDelay = js_mul A (baseDelay r) (js_pow A (factor r) attemptNumber);
          delay = min exponentialDelay (maxDelay r);
          delay' = (if jitter r then addJitter A r u delay else delay)
      in \<lfloor>delay'\<rfloor>)"

text \<open>\<^verbatim>\<open>next()\<close>: the delay and the strategy with its counter incremented.\<close>

definition retry_next :: "arith \<Rightarrow> retry_strategy \<Rightarrow> rat \<Rightarrow> int \<times> retry_strategy" where
  "retry_next A r u = (getDelay A r None u, r\<lparr>attempts := attempts r + 1\<rparr>)"

definition reset :: "retry_strategy \<Rightarrow> retry_strategy" where
  "reset r = r\<lparr>attempts := 0\<rparr>"


definition shouldRetry :: "retry_strategy \<Rightarrow> nat \<Rightarrow> bool" where
  "shouldRetry r maxAttempts = (attempts r < maxAttempts)"

section \<open>WebSocketManager (src/src/core/WebSocketManager.js)\<close>

datatype conn_status = Disconnected | Connecting | Connected | Reconnecting | ConnError

datatype ws_event =
    CONNECTION_STATUS_CHANGED conn_status
  | WS_DISCONNECTED
  | WS_CONNECTED
  | WS_RECONNECTING nat

text \<open>
  The fields the close handler reads and writes.  \<open>reconnectTimer\<close> and \<open>pingTimer\<close> hold
  the delay an armed timer was set with; \<open>ws_emitted\<close> is the trace of \<^verbatim>\<open>emit\<close> calls.
\<close>

record ws_manager =
  autoReconnect :: bool
  maxReconnectAttempts :: nat
  reconnectInterval :: int
  pingInterval :: int
  ws_status :: conn_status
  reconnectAttempts :: nat
  reconnectTimer :: "int option"
  pingTimer :: "int option"
  isRegistered :: bool
  retryStrategy :: "retry_strategy option"
  ws_emitted :: "ws_event list"

definition ws_emit :: "ws_event \<Rightarrow> ws_manager \<Rightarrow> ws_manager" where
  "ws_emit e m = m\<lparr>ws_emitted := ws_emitted m @ [e]\<rparr>"

definition stopPingInterval :: "ws_manager \<Rightarrow> ws_manager" where
  "stopPingInterval m = (if pingTimer m \<noteq> None then m\<lparr>pingTimer := None\<rparr> else m)"

definition startPingInterval :: "ws_manager \<Rightarrow> ws_manager" where
  "startPingInterval m = (stopPingInterval m)\<lparr>pingTimer := Some (pingInterval m)\<rparr>"

text \<open>
  \<^verbatim>\<open>_scheduleReconnect\<close> up to arming the timer; the timer's callback (increment
  \<^verbatim>\<open>reconnectAttempts\<close>, emit \<^verbatim>\<open>RECONNECTING\<close>, call \<^verbatim>\<open>connect\<close>) runs later and is
  \<open>reconnectTimerFires\<close> without the socket part.
\<close>

definition scheduleReconnect :: "arith \<Rightarrow> rat \<Rightarrow> ws_manager \<Rightarrow> ws_manager" where
  "scheduleReconnect A u m =
     (let m1 = ws_emit (CONNECTION_STATUS_CHANGED Reconnecting) (m\<lparr>ws_status := Reconnecting\<rparr>)
      in case retryStrategy m1 of
           Some r \<Rightarrow> (let (delay, r') = retry_next A r u
                      in m1\<lparr>retryStrategy := Some r', reconnectTimer := Some delay\<rparr>)
         | None \<Rightarrow> m1\<lparr>reconnectTimer := Some (reconnectInterval m1)\<rparr>)"

definition reconnectTimerFires :: "ws_manager \<Rightarrow> ws_manager" where
  "reconnectTimerFires m =
     (let m1 = m\<lparr>reconnectAttempts := reconnectAttempts m + 1\<rparr>
      in ws_emit (WS_RECONNECTING (reconnectAttempts m1)) m1)"

definition handleDisconnect :: "arith \<Rightarrow> rat \<Rightarrow> ws_manager \<Rightarrow> ws_manager" where
  "handleDisconnect A u m =
     (let wasConnected = (ws_status m = Connected);
          m1 = stopPingInterval (m\<lparr>ws_status := Disconnected, isRegistered := False\<rparr>);
          m2 = ws_emit WS_DISCONNECTED (ws_emit (CONNECTION_STATUS_CHANGED Disconnected) m1)
      in if wasConnected \<and> autoReconnect m2 \<and> reconnectAttempts m2 < maxReconnectAttempts m2
         then scheduleReconnect A u m2 else m2)"

definition handleReadyForMessage :: "ws_manager \<Rightarrow> ws_manager" where
  "handleReadyForMessage m =
     (let m1 = m\<lparr>ws_status := Connected, reconnectAttempts := 0\<rparr>;
          m2 = (case retryStrategy m1 of
                  Some r \<Rightarrow> m1\<lparr>retryStrategy := Some (reset r)\<rparr>
                | None \<Rightarrow> m1)
      in startPingInterval (ws_emit WS_CONNECTED (ws_emit (CONNECTION_STATUS_CHANGED Connected) m2)))"

section \<open>StorageManager (src/unnamed/part_000)\<close>

text \<open>
  What a stored string is to \<^verbatim>\<open>JSON.parse\<close>: the empty string, text that does not parse,
  the literal \<^verbatim>\<open>null\<close>, or an object with its optional \<^verbatim>\<open>_version\<close>, numeric
  \<^verbatim>\<open>_timestamp\<close> and \<^verbatim>\<open>_data\<close>.  The browser's storage is the list of its entries in
  index order, keys unique.
\<close>

datatype 'a stored =
    EmptyString
  | Unparseable
  | JsonNull
  | JsonObject "string option" "nat option" "'a option"

type_synonym 'a web_storage = "(string \<times> 'a stored) list"

datatype storage_error = QuotaExceededError | OtherStorageError

text \<open>The browser's \<^verbatim>\<open>setItem\<close>: it stores the entry or throws.\<close>

type_synonym 'a set_item =
  "'a web_storage \<Rightarrow> string \<Rightarrow> 'a stored \<Rightarrow> storage_error + 'a web_storage"

definition storage_prefix :: string where
  "storage_prefix = ''weni:webchat:''"

definition storage_version :: string where
  "storage_version = ''1.0.0''"

definition startsWith :: "string \<Rightarrow> string \<Rightarrow> bool" where
  "startsWith key p = (take (length p) key = p)"

definition getFullKey :: "string \<Rightarrow> string" where
  "getFullKey key = (if startsWith key storage_prefix then key else storage_prefix @ key)"

definition getAllKeys :: "'a web_storage \<Rightarrow> string list" where
  "getAllKeys st = filter (\<lambda>key. key \<noteq> [] \<and> startsWith key storage_prefix) (map fst st)"

definition removeItem :: "string \<Rightarrow> 'a web_storage \<Rightarrow> 'a web_storage" where
  "removeItem key st = AList.delete key st"

text \<open>\<^verbatim>\<open>a.data._timestamp || 0\<close> for an entry that parsed to an object (the empty string is
  parsed as \<^verbatim>\<open>{}\<close>).\<close>

fun timestampOrZero :: "'a stored \<Rightarrow> nat" where
  "timestampOrZero (JsonObject _ (Some t) _) = t"
| "timestampOrZero _ = 0"

text \<open>
  \<^verbatim>\<open>_handleQuotaExceeded\<close>.  Its \<^verbatim>\<open>try\<close> block throws, and nothing is removed, when an
  entry does not parse, or when the comparator reads \<^verbatim>\<open>_timestamp\<close> of \<^verbatim>\<open>null\<close> (it is
  called as soon as there are two items).  \<^verbatim>\<open>Array.prototype.sort\<close> is stable, as
  \<open>sort_key\<close> is.
\<close>

definition itemOrEmpty :: "'a web_storage \<Rightarrow> string \<Rightarrow> 'a stored" where
  "itemOrEmpty st key = (case map_of st key of Some v \<Rightarrow> v | None \<Rightarrow> EmptyString)"

definition quotaItems :: "'a web_storage \<Rightarrow> (string \<times> 'a stored) list" where
  "quotaItems st = map (\<lambda>key. (key, itemOrEmpty st key)) (getAllKeys st)"

definition quotaThrows :: "(string \<times> 'a stored) list \<Rightarrow> bool" where
  "quotaThrows items =
     (list_ex (\<lambda>(key, d). d = Unparseable) items \<or>
      (length items \<ge> 2 \<and> list_ex (\<lambda>(key, d). d = JsonNull) items))"

definition toRemove :: "(string \<times> 'a stored) list \<Rightarrow> nat" where
  "toRemove items = nat \<lceil>of_nat (length items) * (1 / 4 :: rat)\<rceil>"

definition evicted :: "'a web_storage \<Rightarrow> string list" where
  "evicted st =
     map fst (take (toRemove (quotaItems st))
                (sort_key (\<lambda>(key, d). timestampOrZero d) (quotaItems st)))"

definition handleQuotaExceeded :: "'a web_storage \<Rightarrow> 'a web_storage" where
  "handleQuotaExceeded st =
     (if quotaThrows (quotaItems st) then st
      else foldl (\<lambda>s key. removeItem key s) st (evicted st))"

text \<open>\<^verbatim>\<open>set(key, value)\<close> at time \<open>now\<close>, on a backend \<open>setItem\<close>.\<close>

definition storage_set :: "'a set_item \<Rightarrow> nat \<Rightarrow> string \<Rightarrow> 'a \<Rightarrow> 'a web_storage \<Rightarrow> 'a web_storage" where
  "storage_set setItem now key v st =
     (let fullKey = getFullKey key;
          data = JsonObject (Some storage_version) (Some now) (Some v)
      in case setItem st fullKey data of
           Inr st' \<Rightarrow> st'
         | Inl QuotaExceededError \<Rightarrow> handleQuotaExceeded st
         | Inl OtherStorageError \<Rightarrow> st)"

text \<open>An example backend: a store with room for \<open>cap\<close> entries.\<close>

definition capacity_backend :: "nat \<Rightarrow> 'a set_item" where
  "capacity_backend cap st key d =
     (let st' = AList.update key d st
      in if length st' > cap then Inl QuotaExceededError else Inr st')"

section \<open>SessionManager\<close>

text \<open>
  \<^verbatim>\<open>getOrCreate\<close> and what it calls are those of src/src/core/SessionManager.js (first
  document) with \<^verbatim>\<open>generateSessionId\<close> of src/src/utils/validators.js; the conversation
  methods are those of src/unnamed/part_000.  A session read back from the store is any
  JSON object, so each field may be missing (\<open>None\<close>).
\<close>

record 'm session =
  sess_id :: "string option"
  createdAt :: "nat option"
  lastActivity :: "nat option"
  sess_metadata :: "(string \<times> string) list"
  conversation :: "'m list option"

text \<open>
  \<open>sm_session\<close> is \<^verbatim>\<open>this.session\<close>; \<open>persisted\<close> is what
  \<^verbatim>\<open>storage.get(sessionKey)\<close> returns; \<open>clearTimer\<close> the delay of the armed auto-clear timer.
\<close>

record 'm session_manager =
  autoClearCache :: bool
  cacheTimeout :: nat
  contactTimeout :: nat
  clientId :: "string option"
  sm_session :: "'m session option"
  clearTimer :: "nat option"
  persisted :: "'m session option"

text \<open>
  What a call reads from outside: the clock, the integer
  \<^verbatim>\<open>Math.floor(Math.random() * Date.now())\<close>, \<^verbatim>\<open>window.location.hostname\<close>, and whether the
  store accepts a write.
\<close>

record session_env =
  se_now :: nat
  se_randomId :: nat
  se_hostname :: string
  se_write_ok :: bool

text \<open>A natural number in decimal, as a template literal prints an integer below \<open>10^21\<close>.\<close>

fun decimal :: "nat \<Rightarrow> string" where
  "decimal n = (if n < 10 then [char_of (48 + n)]
                else decimal (n div 10) @ [char_of (48 + n mod 10)])"

declare decimal.simps [simp del]

definition isDigit :: "char \<Rightarrow> bool" where
  "isDigit c = (48 \<le> (of_char c :: nat) \<and> (of_char c :: nat) \<le> 57)"

text \<open>The characters \<^verbatim>\<open>.\<close> does not match, among the one-byte characters.\<close>

definition isLineTerminator :: "char \<Rightarrow> bool" where
  "isLineTerminator c = ((of_char c :: nat) = 10 \<or> (of_char c :: nat) = 13)"

text \<open>The characters \<^verbatim>\<open>trim()\<close> removes, among the one-byte characters: tab, line feed,
  vertical tab, form feed, carriage return, space and the no-break space.\<close>

definition isWhiteSpace :: "char \<Rightarrow> bool" where
  "isWhiteSpace c = ((of_char c :: nat) \<in> {9, 10, 11, 12, 13, 32, 160})"

text \<open>
  \<^verbatim>\<open>/^\d+@.+$/.test(sessionId)\<close>: the leading digits are not empty, an \<^verbatim>\<open>@\<close> follows them,
  and the rest is not empty and has no line terminator.
\<close>

definition isValidSessionIdFormat :: "string \<Rightarrow> bool" where
  "isValidSessionIdFormat sessionId =
     (takeWhile isDigit sessionId \<noteq> [] \<and>
      (case dropWhile isDigit sessionId of
         [] \<Rightarrow> False
       | c # host \<Rightarrow> c = CHR ''@'' \<and> host \<noteq> [] \<and> \<not> list_ex isLineTerminator host))"

text \<open>The host part \<^verbatim>\<open>generateSessionId\<close> settles on: the client id unless it is missing or
  blank, else the hostname.\<close>

definition validClientId :: "session_env \<Rightarrow> string option \<Rightarrow> string" where
  "validClientId e cid =
     (case cid of
        None \<Rightarrow> se_hostname e
      | Some c \<Rightarrow> (if list_all isWhiteSpace c then se_hostname e else c))"

definition generateSessionId :: "session_env \<Rightarrow> string option \<Rightarrow> string" where
  "generateSessionId e cid = decimal (se_randomId e) @ ''@'' @ validClientId e cid"



definition save :: "session_env \<Rightarrow> 'm session_manager \<Rightarrow> 'm session_manager" where
  "save e m =
     (case sm_session m of
        None \<Rightarrow> m
      | Some s \<Rightarrow> (if se_write_ok e then m\<lparr>persisted := Some s\<rparr> else m))"

definition updateLastActivity :: "session_env \<Rightarrow> 'm session_manager \<Rightarrow> 'm session_manager" where
  "updateLastActivity e m =
     (case sm_session m of
        None \<Rightarrow> m
      | Some s \<Rightarrow> save e (m\<lparr>sm_session := Some (s\<lparr>lastActivity := Some (se_now e)\<rparr>)\<rparr>))"





definition getConversation :: "'m session_manager \<Rightarrow> 'm list \<times> 'm session_manager" where
  "getConversation m =
     (case sm_session m of
        None \<Rightarrow> ([], m)
      | Some s \<Rightarrow> (case conversation s of
                    Some l \<Rightarrow> (l, m)
                  | None \<Rightarrow> ([], m\<lparr>sm_session := Some (s\<lparr>conversation := Some []\<rparr>)\<rparr>)))"

text \<open>
  \<^verbatim>\<open>list.splice(0, n)\<close> for a number \<open>n\<close>: the delete count is \<open>n\<close> truncated to an integer
  and clamped to the length of the list.
\<close>

definition splice0 :: "rat \<Rightarrow> 'm list \<Rightarrow> 'm list" where
  "splice0 n l = drop (nat \<lfloor>n\<rfloor>) l"

text \<open>\<^verbatim>\<open>appendToConversation(message, options)\<close>; \<open>limit\<close> is \<^verbatim>\<open>options.limit\<close>, \<open>None\<close> when
  the option is absent.  The delete count \<^verbatim>\<open>list.length - limit\<close> is a floating-point
  difference.\<close>

definition appendToConversation ::
  "arith \<Rightarrow> session_env \<Rightarrow> 'm \<Rightarrow> js_value option \<Rightarrow> 'm session_manager \<Rightarrow> 'm session_manager" where
  "appendToConversation A e msg limit m =
     (case sm_session m of
        None \<Rightarrow> m
      | Some s0 \<Rightarrow>
          (let (l, m1) = getConversation m;
               l1 = l @ [msg];
               l2 = (case limit of
                       Some (JSNumber q) \<Rightarrow>
                         (if q \<noteq> 0 \<and> q > 0 \<and> of_nat (length l1) > q
                          then splice0 (minus64 A (of_nat (length l1)) q) l1 else l1)
                     | _ \<Rightarrow> l1);
               m2 = (case sm_session m1 of
                       Some s \<Rightarrow> m1\<lparr>sm_session := Some (s\<lparr>conversation := Some l2\<rparr>)\<rparr>
                     | None \<Rightarrow> m1)
           in save e (updateLastActivity e m2)))"

section \<open>Example inputs and notions used in the statements\<close>

subsection \<open>Frames and processors\<close>

text \<open>
  The frames of the end-to-end scenarios: \<^verbatim>\<open>{}\<close>, \<^verbatim>\<open>{v, seq}\<close>, \<^verbatim>\<open>{type, id}\<close>; and the
  processor after \<^verbatim>\<open>stream_start{id: "B"}\<close> at time 100.
\<close>

definition empty_frame :: raw_frame where
  "empty_frame = \<lparr>r_type = None, r_v = None, r_seq = None, r_id = None, r_message = None,
     r_from = None, r_timestamp = None, r_persisted = None, r_metadata = None\<rparr>"

definition delta_frame :: "string \<Rightarrow> rat \<Rightarrow> raw_frame" where
  "delta_frame v q = empty_frame\<lparr>r_v := Some v, r_seq := Some (JSNumber q)\<rparr>"

definition typed_frame :: "string \<Rightarrow> string option \<Rightarrow> raw_frame" where
  "typed_frame t i = empty_frame\<lparr>r_type := Some t, r_id := i\<rparr>"

definition at_time :: "nat \<Rightarrow> env" where
  "at_time t = \<lparr>env_now = t, env_fresh_id = ''msg_gen''\<rparr>"

definition stream_B :: processor where
  "stream_B = process (at_time 100) (typed_frame ''stream_start'' (Some ''B''))
                (new_processor 1000 2000 True 50000)"

lemma stream_B_eq:
  "stream_B = (new_processor 1000 2000 True 50000)
      \<lparr>streams := [Some ''msg_B'' \<mapsto> \<lparr>s_text = [], s_timestamp = 100\<rparr>],
        activeStreamId := Some ''msg_B''\<rparr>"
  by (simp add: stream_B_def process_def extractMessageType_def typed_frame_def empty_frame_def
      processStreamStart_def getMessageIdFromRaw_def js_or_def MESSAGE_ID_PREFIX_def
      resetStreamState_def new_processor_def at_time_def Let_def)

text \<open>The processor after the single frame \<^verbatim>\<open>{v: "Hi", seq: 1, id: "X"}\<close> at time 101: no
  \<^verbatim>\<open>stream_start\<close> was processed, and the delta created the synthetic stream \<^verbatim>\<open>msg_X\<close>.\<close>

definition stream_X :: processor where
  "stream_X = processBatch [(at_time 101, (delta_frame ''Hi'' 1)\<lparr>r_id := Some ''X''\<rparr>)]
                (new_processor 1000 2000 True 50000)"

definition chunk :: "nat \<Rightarrow> string" where
  "chunk q = (if q = 1 then ''Hi'' else if q = 2 then '' '' else ''!'')"

text \<open>A \<^verbatim>\<open>message\<close> frame with text \<^verbatim>\<open>Hello\<close>; and the processor after a stream that
  delivered \<^verbatim>\<open>Hello\<close> and a \<^verbatim>\<open>typing_start\<close>: its dedup window holds \<^verbatim>\<open>Hello\<close> and the
  typing indicator is up.\<close>

definition hello_frame :: "string \<Rightarrow> raw_frame" where
  "hello_frame i = empty_frame\<lparr>r_type := Some ''message'', r_id := Some i,
     r_message := Some \<lparr>m_messageId = None, m_type = None, m_text = Some ''Hello'',
       m_media = None, m_quick_replies = None, m_list_message = None,
       m_cta_message = None\<rparr>\<rparr>"

definition after_hello :: processor where
  "after_hello = processBatch
     [(at_time 100, typed_frame ''stream_start'' (Some ''H'')),
      (at_time 101, delta_frame ''Hello'' 1),
      (at_time 102, typed_frame ''stream_end'' (Some ''H'')),
      (at_time 103, typed_frame ''typing_start'' None)]
     (new_processor 1000 2000 True 50000)"

subsection \<open>Reading the trace\<close>

text \<open>Events a call added to the trace.\<close>

definition emitted_since :: "processor \<Rightarrow> processor \<Rightarrow> event list" where
  "emitted_since s s' = drop (length (emitted s)) (emitted s')"

fun isMessageProcessed :: "event \<Rightarrow> bool" where
  "isMessageProcessed (MESSAGE_PROCESSED m) = True"
| "isMessageProcessed _ = False"

fun isMessageUpdated :: "event \<Rightarrow> bool" where
  "isMessageUpdated (MESSAGE_UPDATED i t st ts) = True"
| "isMessageUpdated _ = False"

fun isIndicatorStart :: "event \<Rightarrow> bool" where
  "isIndicatorStart TYPING_START = True"
| "isIndicatorStart THINKING_START = True"
| "isIndicatorStart _ = False"

subsection \<open>Retry and reconnection\<close>




text \<open>The strategy of scenario 4 of the spec, with a given factor, and a connected manager
  using it.\<close>

definition example_retry :: "rat \<Rightarrow> retry_strategy" where
  "example_retry f = \<lparr>baseDelay = 1000, maxDelay = 30000, factor = f, jitter = False,
     maxJitter = 1000, attempts = 0\<rparr>"

definition example_manager :: ws_manager where
  "example_manager = \<lparr>autoReconnect = True, maxReconnectAttempts = 3, reconnectInterval = 3000,
     pingInterval = 50000, ws_status = Connected, reconnectAttempts = 0, reconnectTimer = None,
     pingTimer = Some 50000, isRegistered = True, retryStrategy = Some (example_retry 2),
     ws_emitted = []\<rparr>"

text \<open>The condition under which \<^verbatim>\<open>_handleDisconnect\<close> schedules a reconnection.\<close>

definition reconnectAllowed :: "ws_manager \<Rightarrow> bool" where
  "reconnectAllowed m \<longleftrightarrow>
     ws_status m = Connected \<and> autoReconnect m \<and> reconnectAttempts m < maxReconnectAttempts m"

subsection \<open>An example store\<close>

text \<open>Five prefixed entries with their timestamps, one foreign entry, and the envelope a
  write of \<^verbatim>\<open>F\<close> at time 60 would store.\<close>

definition example_store :: "string web_storage" where
  "example_store =
     [(''weni:webchat:a'', JsonObject (Some ''1.0.0'') (Some 40) (Some ''A'')),
      (''weni:webchat:b'', JsonObject (Some ''1.0.0'') (Some 10) (Some ''B'')),
      (''other'', Unparseable),
      (''weni:webchat:c'', JsonObject (Some ''1.0.0'') (Some 30) (Some ''C'')),
      (''weni:webchat:d'', JsonObject (Some ''1.0.0'') (Some 20) (Some ''D'')),
      (''weni:webchat:e'', JsonObject (Some ''1.0.0'') (Some 50) (Some ''E''))]"

definition example_entry :: "string stored" where
  "example_entry = JsonObject (Some storage_version) (Some 60) (Some ''F'')"

text \<open>Two prefixed entries, one of them the JSON literal \<^verbatim>\<open>null\<close>.\<close>

definition null_store :: "string web_storage" where
  "null_store =
     [(''weni:webchat:a'', JsonNull),
      (''weni:webchat:b'', JsonObject (Some ''1.0.0'') (Some 10) (Some ''B''))]"

subsection \<open>Example sessions\<close>

text \<open>A stored session with a well-formed id, last active at \<open>la\<close>; a manager with nothing in
  memory and that session in the store (contact timeout 24 h); the browser at time
  100000000 on a given hostname.\<close>

definition stored_session :: "nat \<Rightarrow> string session" where
  "stored_session la = \<lparr>sess_id = Some ''123@host'', createdAt = Some 500,
     lastActivity = Some la, sess_metadata = [], conversation = None\<rparr>"

definition example_sessions :: "nat \<Rightarrow> string session_manager" where
  "example_sessions la = \<lparr>autoClearCache = True, cacheTimeout = 1800000,
     contactTimeout = 86400000, clientId = None, sm_session = None, clearTimer = None,
     persisted = Some (stored_session la)\<rparr>"

definition browser :: "string \<Rightarrow> session_env" where
  "browser host = \<lparr>se_now = 100000000, se_randomId = 7, se_hostname = host,
     se_write_ok = True\<rparr>"

text \<open>The conversation \<^verbatim>\<open>getConversation()\<close> returns.\<close>

definition conversationOf :: "'m session_manager \<Rightarrow> 'm list" where
  "conversationOf m = fst (getConversation m)"

text \<open>The same manager with that session live, holding a given conversation.\<close>

definition example_live :: "string list \<Rightarrow> string session_manager" where
  "example_live l = (example_sessions 1000)
     \<lparr>sm_session := Some ((stored_session 1000)\<lparr>conversation := Some l\<rparr>)\<rparr>"

section \<open>Stream assembly: arrival order does not matter\<close>

text \<open>
  The invariant of an active stream \<open>sid\<close> after the deltas with numbers in \<open>R\<close> have
  arrived: the next expected number is \<open>k\<close>, every number below \<open>k\<close> has arrived and its
  chunk is in the text in ascending order, and \<^verbatim>\<open>pendingDeltas\<close> holds exactly the arrived
  numbers from \<open>k\<close> on.
\<close>

definition pend :: "nat set \<Rightarrow> nat \<Rightarrow> (nat \<Rightarrow> string) \<Rightarrow> rat \<rightharpoonup> string" where
  "pend R k pay =
     (\<lambda>x. if x = of_nat (nat \<lfloor>x\<rfloor>) \<and> nat \<lfloor>x\<rfloor> \<in> R \<and> k \<le> nat \<lfloor>x\<rfloor>
          then Some (pay (nat \<lfloor>x\<rfloor>)) else None)"

definition stream_inv :: "string \<Rightarrow> (nat \<Rightarrow> string) \<Rightarrow> string \<Rightarrow> nat set \<Rightarrow> nat \<Rightarrow> processor \<Rightarrow> bool" where
  "stream_inv sid pay t0 R k s \<longleftrightarrow>
     activeStreamId s = Some sid \<and> sid \<noteq> [] \<and>
     nextExpectedSeq s = of_nat k \<and> 1 \<le> k \<and> {1..<k} \<subseteq> R \<and>
     (\<exists>st. streams s (Some sid) = Some st \<and> s_text st = t0 @ concat (map pay [1..<k])) \<and>
     map_of (pendingDeltas s) = pend R k pay"

lemma pend_at: "pend R k pay (of_nat q) = (if q \<in> R \<and> k \<le> q then Some (pay q) else None)"
  by (simp add: pend_def)

lemma pend_drop: "k \<in> R \<Longrightarrow> (pend R k pay)(of_nat k := None) = pend R (Suc k) pay"
  by (rule ext) (auto simp: pend_def Suc_le_eq le_less)

lemma pend_skip: "k \<notin> R \<Longrightarrow> pend (insert k R) (Suc k) pay = pend R k pay"
  by (rule ext) (auto simp: pend_def Suc_le_eq le_less)

lemma pend_add: "k < q \<Longrightarrow> (pend R k pay)(of_nat q \<mapsto> pay q) = pend (insert q R) k pay"
  by (rule ext) (auto simp: pend_def)

lemma step_inv:
  assumes "stream_inv sid pay t0 R k s" "k \<in> R"
  shows "stream_inv sid pay t0 R (Suc k) (applyPendingStep e (Some sid) (pay k) s)"
  using assms
  by (auto simp: stream_inv_def applyPendingStep_def appendStreamContent_def emit_def Let_def
      delete_conv' pend_drop atLeastLessThanSuc)

lemma drain_inv:
  "stream_inv sid pay t0 R k s \<Longrightarrow>
   \<exists>k'. k' \<notin> R \<and> stream_inv sid pay t0 R k' (applyPendingDeltas e (Some sid) s)"
proof (induction e "Some sid" s arbitrary: k rule: applyPendingDeltas.induct)
  case (1 e s)
  have next_k: "nextExpectedSeq s = of_nat k" and pd: "map_of (pendingDeltas s) = pend R k pay"
    using "1.prems" by (simp_all add: stream_inv_def)
  show ?case
  proof (cases "k \<in> R")
    case True
    then have look: "map_of (pendingDeltas s) (nextExpectedSeq s) = Some (pay k)"
      by (simp add: next_k pd pend_at)
    have "stream_inv sid pay t0 R (Suc k) (applyPendingStep e (Some sid) (pay k) s)"
      using "1.prems" True by (rule step_inv)
    from "1.hyps"[OF look this] show ?thesis
      by (subst applyPendingDeltas.simps) (simp add: look)
  next
    case False
    then have "map_of (pendingDeltas s) (nextExpectedSeq s) = None"
      by (simp add: next_k pd pend_at)
    then have "applyPendingDeltas e (Some sid) s = s"
      by (subst applyPendingDeltas.simps) simp
    with False "1.prems" show ?thesis by auto
  qed
qed

lemma inorder_inv:
  assumes "stream_inv sid pay t0 R k s" "k \<notin> R"
  shows "stream_inv sid pay t0 (insert k R) (Suc k)
           ((appendStreamContent e (Some sid) (pay k) s)
              \<lparr>nextExpectedSeq := nextExpectedSeq (appendStreamContent e (Some sid) (pay k) s) + 1\<rparr>)"
  using assms
  by (auto simp: stream_inv_def appendStreamContent_def emit_def Let_def pend_skip
      atLeastLessThanSuc)

lemma buffer_inv:
  assumes "stream_inv sid pay t0 R k s" "k < q"
  shows "stream_inv sid pay t0 (insert q R) k
           (s\<lparr>pendingDeltas := AList.update (of_nat q) (pay q) (pendingDeltas s)\<rparr>)"
  using assms
  by (auto simp: stream_inv_def update_conv' pend_add)

lemma sequence_inv:
  assumes inv: "stream_inv sid pay t0 R k s" and k: "k \<notin> R" and q: "q \<notin> R" "1 \<le> q"
  shows "\<exists>k'. k' \<notin> insert q R \<and>
           stream_inv sid pay t0 (insert q R) k' (processDeltaSequence e (of_nat q) (pay q) s)"
proof -
  have act: "activeStreamId s = Some sid" and nx: "nextExpectedSeq s = of_nat k"
    and sub: "{1..<k} \<subseteq> R"
    using inv by (simp_all add: stream_inv_def)
  from sub q have "k \<le> q"
    by (meson atLeastLessThan_iff not_le_imp_less subsetD)
  then consider "q = k" | "k < q" by (auto simp: le_less)
  then show ?thesis
  proof cases
    case 1
    from drain_inv[OF inorder_inv[OF inv k], of e e] 1 show ?thesis
      by (simp add: processDeltaSequence_def act nx Let_def)
  next
    case 2
    with k q have "k \<notin> insert q R" by auto
    moreover from 2 have "processDeltaSequence e (of_nat q) (pay q) s
        = s\<lparr>pendingDeltas := AList.update (of_nat q) (pay q) (pendingDeltas s)\<rparr>"
      by (simp add: processDeltaSequence_def act nx Let_def)
    ultimately show ?thesis using buffer_inv[OF inv 2] by auto
  qed
qed

lemma stream_inv_cong:
  assumes "activeStreamId s' = activeStreamId s" "nextExpectedSeq s' = nextExpectedSeq s"
    "streams s' = streams s" "pendingDeltas s' = pendingDeltas s"
  shows "stream_inv sid pay t0 R k s' = stream_inv sid pay t0 R k s"
  by (simp add: stream_inv_def assms)

lemma processQueue_stream_fields:
  "activeStreamId (processQueue s) = activeStreamId s \<and>
   nextExpectedSeq (processQueue s) = nextExpectedSeq s \<and>
   streams (processQueue s) = streams s \<and>
   pendingDeltas (processQueue s) = pendingDeltas s"
  by (simp add: processQueue_def emit_def Let_def split: list.splits)

lemma stopTyping_stream_fields:
  "activeStreamId (stopTyping s) = activeStreamId s \<and>
   nextExpectedSeq (stopTyping s) = nextExpectedSeq s \<and>
   streams (stopTyping s) = streams s \<and>
   pendingDeltas (stopTyping s) = pendingDeltas s"
  by (simp add: stopTyping_def emit_def Let_def)

lemma handleFirstDelta_stream_fields:
  "activeStreamId (handleFirstDelta e s) = activeStreamId s \<and>
   nextExpectedSeq (handleFirstDelta e s) = nextExpectedSeq s \<and>
   streams (handleFirstDelta e s) = streams s \<and>
   pendingDeltas (handleFirstDelta e s) = pendingDeltas s"
  by (simp add: handleFirstDelta_def emitDeferredStreamMessage_def Let_def
      processQueue_stream_fields stopTyping_stream_fields)

lemma processDelta_inv:
  assumes inv: "stream_inv sid pay t0 R k s" and k: "k \<notin> R" and q: "q \<notin> R" "1 \<le> q"
    and f: "r_seq f = Some (JSNumber (of_nat q))" "r_v f = Some (pay q)"
  shows "\<exists>k'. k' \<notin> insert q R \<and>
           stream_inv sid pay t0 (insert q R) k' (processDelta e f s)"
proof -
  define s2 where "s2 = (if isFirstDelta (of_nat q) s then handleFirstDelta e s else s)"
  have "stream_inv sid pay t0 R k s2"
    using inv by (simp add: s2_def stream_inv_cong[OF _ _ _ _, of "handleFirstDelta e s" s]
        handleFirstDelta_stream_fields)
  from sequence_inv[OF this k q, of e]
  have "\<exists>k'. k' \<notin> insert q R \<and>
           stream_inv sid pay t0 (insert q R) k' (processDeltaSequence e (of_nat q) (pay q) s2)" .
  moreover have "truthy (activeStreamId s)"
    using inv by (simp add: stream_inv_def)
  moreover have "isValidSequenceNumber (JSNumber (of_nat q))"
    using q by (simp add: STREAM_INITIAL_SEQUENCE_def)
  ultimately show ?thesis
    by (simp add: processDelta_def f Let_def s2_def)
qed

lemma process_delta_frame:
  assumes "r_type f = None" "r_v f = Some v" "r_seq f = Some x"
  shows "process e f s = processDelta e f s"
  using assms by (simp add: process_def extractMessageType_def)

lemma batch_inv:
  assumes "distinct qs" "set qs \<inter> R = {}" "\<forall>q\<in>set qs. 1 \<le> q"
    and "\<forall>q\<in>set qs. r_type (fr q) = None \<and> r_v (fr q) = Some (pay q) \<and>
            r_seq (fr q) = Some (JSNumber (of_nat q))"
    and "stream_inv sid pay t0 R k s" "k \<notin> R"
  shows "\<exists>k'. k' \<notin> R \<union> set qs \<and>
           stream_inv sid pay t0 (R \<union> set qs) k' (processBatch (map (\<lambda>q. (ev q, fr q)) qs) s)"
  using assms
proof (induction qs arbitrary: R k s)
  case Nil
  then show ?case by auto
next
  case (Cons q qs)
  have qR: "q \<notin> R" and q1: "1 \<le> q" using Cons.prems by auto
  have fq: "r_type (fr q) = None" "r_v (fr q) = Some (pay q)"
    "r_seq (fr q) = Some (JSNumber (of_nat q))"
    using Cons.prems(4) by auto
  from processDelta_inv[OF Cons.prems(5) Cons.prems(6) qR q1 fq(3) fq(2), of "ev q"]
  obtain k1 where k1: "k1 \<notin> insert q R"
    and inv1: "stream_inv sid pay t0 (insert q R) k1 (process (ev q) (fr q) s)"
    by (auto simp: process_delta_frame[OF fq])
  have "\<exists>k'. k' \<notin> insert q R \<union> set qs \<and>
         stream_inv sid pay t0 (insert q R \<union> set qs) k'
           (processBatch (map (\<lambda>q. (ev q, fr q)) qs) (process (ev q) (fr q) s))"
    using Cons.prems by (intro Cons.IH[OF _ _ _ _ inv1 k1]) auto
  then show ?case by simp
qed

text \<open>
  Claim C1.  Deltas with sequence numbers \<open>1..n\<close>, each exactly once, reach a single
  active stream in any arrival order \<open>qs\<close>; \<open>pay q\<close> is the chunk of delta \<open>q\<close>, \<open>fr q\<close>
  its frame and \<open>ev q\<close> the clock it arrives at.  Whatever the order, the stream's
  accumulated text ends as the chunks concatenated in ascending sequence order, every
  buffered delta has been drained and the next expected number is \<open>n + 1\<close>.
\<close>

theorem C1_deltas_any_order:
  assumes qs: "distinct qs" "set qs = {1..n}"
    and fr: "\<forall>q\<in>set qs. r_type (fr q) = None \<and> r_v (fr q) = Some (pay q) \<and>
            r_seq (fr q) = Some (JSNumber (of_nat q))"
    and act: "activeStreamId s = Some sid" "sid \<noteq> []" "streams s (Some sid) = Some st"
    and fresh: "nextExpectedSeq s = STREAM_INITIAL_SEQUENCE" "pendingDeltas s = []"
  shows "map_option s_text (streams (processBatch (map (\<lambda>q. (ev q, fr q)) qs) s) (Some sid))
           = Some (s_text st @ concat (map pay [1..<Suc n])) \<and>
         nextExpectedSeq (processBatch (map (\<lambda>q. (ev q, fr q)) qs) s) = of_nat (Suc n) \<and>
         map_of (pendingDeltas (processBatch (map (\<lambda>q. (ev q, fr q)) qs) s)) = Map.empty"
proof -
  have inv0: "stream_inv sid pay (s_text st) {} 1 s"
    using act fresh by (simp add: stream_inv_def STREAM_INITIAL_SEQUENCE_def pend_def)
  have "\<forall>q\<in>set qs. 1 \<le> q" using qs by simp
  from batch_inv[OF qs(1) _ this fr inv0, of ev]
  obtain k' where k': "k' \<notin> {1..n}"
    and inv: "stream_inv sid pay (s_text st) {1..n} k'
                (processBatch (map (\<lambda>q. (ev q, fr q)) qs) s)"
    using qs by auto
  from inv have low: "1 \<le> k'" and sub: "{1..<k'} \<subseteq> {1..n}"
    by (simp_all add: stream_inv_def)
  from k' low have "n < k'" by auto
  moreover have "\<not> Suc n < k'"
  proof
    assume "Suc n < k'"
    then have "Suc n \<in> {1..<k'}" by auto
    with sub have "Suc n \<in> {1..n}" by blast
    then show False by simp
  qed
  ultimately have "k' = Suc n" by arith
  with inv show ?thesis
    by (auto simp: stream_inv_def pend_def)
qed

text \<open>Scenario 2 of the spec: the deltas arrive as 3, 1, 2 and the text ends as \<^verbatim>\<open>Hi !\<close>.\<close>

theorem C1_deltas_any_order_witness:
  "distinct [3, 1, 2::nat] \<and> set [3, 1, 2::nat] = {1..3} \<and>
   activeStreamId stream_B = Some ''msg_B'' \<and>
   nextExpectedSeq stream_B = STREAM_INITIAL_SEQUENCE \<and> pendingDeltas stream_B = [] \<and>
   map_option s_text
     (streams (processBatch
        [(at_time 103, delta_frame ''!'' 3), (at_time 101, delta_frame ''Hi'' 1),
         (at_time 102, delta_frame '' '' 2)] stream_B) (Some ''msg_B'')) = Some ''Hi !''"
proof -
  have d: "distinct [3, 1, 2::nat]" by simp
  have s: "set [3, 1, 2::nat] = {1..3}" by auto
  have f: "\<forall>q\<in>set [3, 1, 2::nat]. r_type (delta_frame (chunk q) (of_nat q)) = None \<and>
       r_v (delta_frame (chunk q) (of_nat q)) = Some (chunk q) \<and>
       r_seq (delta_frame (chunk q) (of_nat q)) = Some (JSNumber (of_nat q))"
    by (simp add: delta_frame_def empty_frame_def)
  have a: "activeStreamId stream_B = Some ''msg_B''" "''msg_B'' \<noteq> []"
    "streams stream_B (Some ''msg_B'') = Some \<lparr>s_text = [], s_timestamp = 100\<rparr>"
    "nextExpectedSeq stream_B = STREAM_INITIAL_SEQUENCE" "pendingDeltas stream_B = []"
    by (simp_all add: stream_B_eq new_processor_def)
  have u: "concat (map chunk [1..<Suc 3]) = ''Hi !''"
    by (simp add: upt_rec chunk_def)
  note c = C1_deltas_any_order[OF d s f a, of "\<lambda>q. at_time (100 + q)", THEN conjunct1]
  show ?thesis
    using d s a c[unfolded u] by (simp add: chunk_def)
qed

section \<open>Sequence validation, dedup window, stream end, indicators\<close>

lemma after_hello_step1:
  "process (at_time 100) (typed_frame ''stream_start'' (Some ''H'')) (new_processor 1000 2000 True 50000)
    = (new_processor 1000 2000 True 50000)
      \<lparr>streams := [Some ''msg_H'' \<mapsto> \<lparr>s_text = [], s_timestamp = 100\<rparr>],
        activeStreamId := Some ''msg_H''\<rparr>"
  by (simp add: process_def extractMessageType_def typed_frame_def empty_frame_def
      processStreamStart_def getMessageIdFromRaw_def js_or_def MESSAGE_ID_PREFIX_def
      resetStreamState_def new_processor_def at_time_def Let_def)

lemma after_hello_step2:
  "process (at_time 101) (delta_frame ''Hello'' 1)
     ((new_processor 1000 2000 True 50000)
      \<lparr>streams := [Some ''msg_H'' \<mapsto> \<lparr>s_text = [], s_timestamp = 100\<rparr>],
        activeStreamId := Some ''msg_H''\<rparr>)
   = (new_processor 1000 2000 True 50000)
      \<lparr>streams := [Some ''msg_H'' \<mapsto> \<lparr>s_text = ''Hello'', s_timestamp = 101\<rparr>],
        activeStreamId := Some ''msg_H'', nextExpectedSeq := 2, streamMessageEmitted := True,
        emitted := [MESSAGE_PROCESSED (createStreamingMessage (Some ''msg_H'') 100),
                    MESSAGE_UPDATED (Some ''msg_H'') ''Hello'' Streaming 101]\<rparr>"
  by (simp add: process_def extractMessageType_def delta_frame_def empty_frame_def
      processDelta_def STREAM_INITIAL_SEQUENCE_def new_processor_def
      isFirstDelta_def handleFirstDelta_def emitDeferredStreamMessage_def processQueue_def
      emit_def processDeltaSequence_def appendStreamContent_def applyPendingDeltas.simps
      at_time_def Let_def)

lemma after_hello_step3:
  "process (at_time 102) (typed_frame ''stream_end'' (Some ''H''))
     ((new_processor 1000 2000 True 50000)
      \<lparr>streams := [Some ''msg_H'' \<mapsto> \<lparr>s_text = ''Hello'', s_timestamp = 101\<rparr>],
        activeStreamId := Some ''msg_H'', nextExpectedSeq := 2, streamMessageEmitted := True,
        emitted := [MESSAGE_PROCESSED (createStreamingMessage (Some ''msg_H'') 100),
                    MESSAGE_UPDATED (Some ''msg_H'') ''Hello'' Streaming 101]\<rparr>)
   = (new_processor 1000 2000 True 50000)
      \<lparr>recentIncomingTexts := [''Hello''],
        emitted := [MESSAGE_PROCESSED (createStreamingMessage (Some ''msg_H'') 100),
                    MESSAGE_UPDATED (Some ''msg_H'') ''Hello'' Streaming 101,
                    MESSAGE_UPDATED (Some ''msg_H'') ''Hello'' Delivered 102]\<rparr>"
  by (simp add: process_def extractMessageType_def typed_frame_def empty_frame_def
      processStreamEnd_def getMessageIdFromRaw_def js_or_def MESSAGE_ID_PREFIX_def
      cleanupStream_def resetStreamState_def rememberIncomingText_def emit_def
      STREAM_INITIAL_SEQUENCE_def new_processor_def at_time_def Let_def)

lemma after_hello_step4:
  "process (at_time 103) (typed_frame ''typing_start'' None)
     ((new_processor 1000 2000 True 50000)
      \<lparr>recentIncomingTexts := [''Hello''],
        emitted := [MESSAGE_PROCESSED (createStreamingMessage (Some ''msg_H'') 100),
                    MESSAGE_UPDATED (Some ''msg_H'') ''Hello'' Streaming 101,
                    MESSAGE_UPDATED (Some ''msg_H'') ''Hello'' Delivered 102]\<rparr>)
   = (new_processor 1000 2000 True 50000)
      \<lparr>recentIncomingTexts := [''Hello''], isTypingActive := True,
        typingTimer := Some (StopTypingAfter 50000),
        emitted := [MESSAGE_PROCESSED (createStreamingMessage (Some ''msg_H'') 100),
                    MESSAGE_UPDATED (Some ''msg_H'') ''Hello'' Streaming 101,
                    MESSAGE_UPDATED (Some ''msg_H'') ''Hello'' Delivered 102,
                    TYPING_START]\<rparr>"
  by (simp add: process_def extractMessageType_def typed_frame_def empty_frame_def
      handleTypingIndicator_def emit_def new_processor_def Let_def)

lemma after_hello_eq:
  "after_hello = (new_processor 1000 2000 True 50000)
      \<lparr>recentIncomingTexts := [''Hello''], isTypingActive := True,
        typingTimer := Some (StopTypingAfter 50000),
        emitted := [MESSAGE_PROCESSED (createStreamingMessage (Some ''msg_H'') 100),
                    MESSAGE_UPDATED (Some ''msg_H'') ''Hello'' Streaming 101,
                    MESSAGE_UPDATED (Some ''msg_H'') ''Hello'' Delivered 102,
                    TYPING_START]\<rparr>"
  by (simp add: after_hello_def after_hello_step1 after_hello_step2 after_hello_step3 after_hello_step4)

lemma processDelta_invalid_ignored:
  "\<not> isValidSequenceNumber (case r_seq raw of Some v \<Rightarrow> v | None \<Rightarrow> JSUndefined)
   \<Longrightarrow> processDelta e raw s = s"
  by (simp add: processDelta_def Let_def)

lemma isValidSequenceNumber_iff:
  "isValidSequenceNumber x \<longleftrightarrow> (\<exists>q. x = JSNumber q \<and> 1 \<le> q)"
  by (cases x) (auto simp: STREAM_INITIAL_SEQUENCE_def)

text \<open>
  Claim C2.  A delta whose \<^verbatim>\<open>seq\<close> is not a number, is \<^verbatim>\<open>NaN\<close>, or is below 1 is dropped
  with no state change (\<open>process_invalid_seq_ignored\<close>).  A non-integer \<^verbatim>\<open>seq\<close> of at
  least 1 is not: \<^verbatim>\<open>_isValidSequenceNumber\<close>, documented as accepting positive integers,
  accepts it.  On the stream opened by \<^verbatim>\<open>stream_start{id: "B"}\<close> the delta
  \<^verbatim>\<open>{v: "x", seq: 1.5}\<close> is taken as the first delta (the deferred streaming message is
  emitted) and is buffered under the key 1.5, which no later number reaches.
\<close>

theorem C2_fractional_seq_accepted:
  "isValidSequenceNumber (JSNumber (3 / 2)) \<and>
   process (at_time 101) (delta_frame ''x'' (3 / 2)) stream_B \<noteq> stream_B \<and>
   pendingDeltas (process (at_time 101) (delta_frame ''x'' (3 / 2)) stream_B) = [(3 / 2, ''x'')] \<and>
   streamMessageEmitted (process (at_time 101) (delta_frame ''x'' (3 / 2)) stream_B) \<and>
   emitted (process (at_time 101) (delta_frame ''x'' (3 / 2)) stream_B)
     = [MESSAGE_PROCESSED (createStreamingMessage (Some ''msg_B'') 100)]"
proof -
  have p: "process (at_time 101) (delta_frame ''x'' (3 / 2)) stream_B
      = stream_B\<lparr>pendingDeltas := [(3 / 2, ''x'')], streamMessageEmitted := True,
          emitted := [MESSAGE_PROCESSED (createStreamingMessage (Some ''msg_B'') 100)]\<rparr>"
    by (simp add: process_def extractMessageType_def delta_frame_def empty_frame_def
        processDelta_def STREAM_INITIAL_SEQUENCE_def stream_B_eq new_processor_def
        isFirstDelta_def handleFirstDelta_def emitDeferredStreamMessage_def processQueue_def
        emit_def processDeltaSequence_def Let_def)
  have n: "stream_B\<lparr>pendingDeltas := [(3 / 2, ''x'')], streamMessageEmitted := True,
          emitted := [MESSAGE_PROCESSED (createStreamingMessage (Some ''msg_B'') 100)]\<rparr> \<noteq> stream_B"
  proof
    assume "stream_B\<lparr>pendingDeltas := [(3 / 2, ''x'')], streamMessageEmitted := True,
          emitted := [MESSAGE_PROCESSED (createStreamingMessage (Some ''msg_B'') 100)]\<rparr> = stream_B"
    then have "pendingDeltas (stream_B\<lparr>pendingDeltas := [(3 / 2, ''x'')], streamMessageEmitted := True,
          emitted := [MESSAGE_PROCESSED (createStreamingMessage (Some ''msg_B'') 100)]\<rparr>)
        = pendingDeltas stream_B" by simp
    then show False by (simp add: stream_B_eq new_processor_def)
  qed
  show ?thesis
    unfolding p using n by (simp add: STREAM_INITIAL_SEQUENCE_def)
qed

lemma process_invalid_seq_ignored:
  assumes "r_type raw = None" "r_v raw = Some v" "r_seq raw = Some x"
    "\<not> isValidSequenceNumber x"
  shows "process e raw s = s"
  using assms by (simp add: process_delta_frame processDelta_invalid_ignored)

lemma stopTyping_emitted_processed:
  "filter isMessageProcessed (emitted (stopTyping s)) = filter isMessageProcessed (emitted s)"
  by (simp add: stopTyping_def emit_def Let_def)

lemma getMessageType_message:
  "extractMessageType raw = ''message'' \<Longrightarrow> getMessageType raw = ''message''"
  by (auto simp: extractMessageType_def getMessageType_def innerMessageType_def
      split: if_splits option.splits)

lemma processUserMessage_keeps_window:
  "recentIncomingTexts (processUserMessage e raw s) = recentIncomingTexts s"
  by (simp add: processUserMessage_def processQueue_def stopTyping_def emit_def Let_def
      split: list.splits)

text \<open>
  Claim C3, as amended.  A \<^verbatim>\<open>message\<close> frame whose text is not empty and equals an entry of
  the dedup window emits no processed-message event and leaves the queue, the streams and
  the window as they were; the one effect it has is that an indicator that is up is
  stopped first.  (\<open>processUserMessage_keeps_window\<close>: a \<^verbatim>\<open>message\<close> frame never adds to
  the window; only \<^verbatim>\<open>stream_end\<close> does.)
\<close>

theorem C3_duplicate_suppressed:
  assumes "extractMessageType raw = ''message''"
    and "r_message raw = Some m" "m_text m = Some t" "t \<noteq> []"
    and "t \<in> set (recentIncomingTexts s)"
  shows "process e raw s = (if isTypingActive s \<or> isThinkingActive s then stopTyping s else s) \<and>
         filter isMessageProcessed (emitted (process e raw s))
           = filter isMessageProcessed (emitted s) \<and>
         queue (process e raw s) = queue s \<and>
         recentIncomingTexts (process e raw s) = recentIncomingTexts s \<and>
         streams (process e raw s) = streams s"
proof -
  have ty: "msg_type (normalizeMessage e raw) = ''message''"
    using assms(1) by (simp add: normalizeMessage_def getMessageType_message)
  have tx: "msg_text (normalizeMessage e raw) = Some t"
    using assms(2-4) by (simp add: normalizeMessage_def truthy_field_def)
  have dir: "msg_direction (normalizeMessage e raw) = Incoming"
    by (simp add: normalizeMessage_def)
  have rec: "recentIncomingTexts (stopTyping s) = recentIncomingTexts s"
    by (simp add: stopTyping_def emit_def Let_def)
  have p: "process e raw s = (if isTypingActive s \<or> isThinkingActive s then stopTyping s else s)"
    using assms(4,5)
    by (simp add: process_def assms(1) processUserMessage_def validateMessage_def ty tx dir
        isDuplicateIncomingText_def rec Let_def)
  have q: "queue (stopTyping s) = queue s" "streams (stopTyping s) = streams s"
    by (simp_all add: stopTyping_def emit_def Let_def)
  show ?thesis
    unfolding p by (simp add: stopTyping_emitted_processed rec q)
qed

text \<open>Scenario 3 of the spec, with the typing indicator up.\<close>

theorem C3_duplicate_suppressed_witness:
  "extractMessageType (hello_frame ''a'') = ''message'' \<and>
   ''Hello'' \<in> set (recentIncomingTexts after_hello) \<and>
   process (at_time 200) (hello_frame ''a'') after_hello = stopTyping after_hello \<and>
   filter isMessageProcessed (emitted (process (at_time 200) (hello_frame ''a'') after_hello))
     = filter isMessageProcessed (emitted after_hello) \<and>
   queue (process (at_time 200) (hello_frame ''a'') after_hello) = []"
proof -
  have a: "extractMessageType (hello_frame ''a'') = ''message''"
    by (simp add: extractMessageType_def hello_frame_def empty_frame_def)
  have b: "r_message (hello_frame ''a'') = Some \<lparr>m_messageId = None, m_type = None,
       m_text = Some ''Hello'', m_media = None, m_quick_replies = None, m_list_message = None,
       m_cta_message = None\<rparr>"
    by (simp add: hello_frame_def)
  have c: "''Hello'' \<in> set (recentIncomingTexts after_hello)"
    by (simp add: after_hello_eq)
  have d: "isTypingActive after_hello" "queue after_hello = []"
    by (simp_all add: after_hello_eq new_processor_def)
  have mt: "m_text \<lparr>m_messageId = None, m_type = None, m_text = Some ''Hello'',
       m_media = None, m_quick_replies = None, m_list_message = None,
       m_cta_message = None\<rparr> = Some ''Hello''"
    by simp
  have ne: "''Hello'' \<noteq> []" by simp
  note t = C3_duplicate_suppressed[OF a b mt ne c, of "at_time 200"]
  from t have "process (at_time 200) (hello_frame ''a'') after_hello
      = (if isTypingActive after_hello \<or> isThinkingActive after_hello
         then stopTyping after_hello else after_hello)"
    by blast
  then have p: "process (at_time 200) (hello_frame ''a'') after_hello = stopTyping after_hello"
    using d(1) by simp
  from t have f: "filter isMessageProcessed
      (emitted (process (at_time 200) (hello_frame ''a'') after_hello))
      = filter isMessageProcessed (emitted after_hello)"
    by blast
  from t have "queue (process (at_time 200) (hello_frame ''a'') after_hello) = queue after_hello"
    by blast
  then have q: "queue (process (at_time 200) (hello_frame ''a'') after_hello) = []"
    using d(2) by simp
  show ?thesis using a c p f q by blast
qed

text \<open>
  The claim as stated fails.  With \<^verbatim>\<open>Hello\<close> in the window and the typing indicator up, a
  \<^verbatim>\<open>message\<close> frame with text \<^verbatim>\<open>Hello\<close> changes the state (the indicator is stopped and
  \<^verbatim>\<open>typing:stop\<close> emitted); and two such frames yield no processed-message event, not one.
\<close>

theorem C3_counterexample:
  "''Hello'' \<in> set (recentIncomingTexts after_hello) \<and>
   process (at_time 200) (hello_frame ''a'') after_hello \<noteq> after_hello \<and>
   emitted_since after_hello (process (at_time 200) (hello_frame ''a'') after_hello) = [TYPING_STOP] \<and>
   filter isMessageProcessed
     (emitted_since after_hello
        (processBatch [(at_time 200, hello_frame ''a''), (at_time 201, hello_frame ''b'')]
           after_hello)) = []"
proof -
  have a: "process (at_time 200) (hello_frame ''a'') after_hello
      = after_hello\<lparr>isTypingActive := False, typingTimer := None,
          emitted := emitted after_hello @ [TYPING_STOP]\<rparr>"
    by (simp add: process_def extractMessageType_def hello_frame_def empty_frame_def
        processUserMessage_def normalizeMessage_def validateMessage_def getMessageType_def
        truthy_field_def isDuplicateIncomingText_def stopTyping_def emit_def after_hello_eq
        new_processor_def js_or_def at_time_def Let_def)
  have b: "process (at_time 201) (hello_frame ''b'')
       (after_hello\<lparr>isTypingActive := False, typingTimer := None,
          emitted := emitted after_hello @ [TYPING_STOP]\<rparr>)
      = after_hello\<lparr>isTypingActive := False, typingTimer := None,
          emitted := emitted after_hello @ [TYPING_STOP]\<rparr>"
    by (simp add: process_def extractMessageType_def hello_frame_def empty_frame_def
        processUserMessage_def normalizeMessage_def validateMessage_def getMessageType_def
        truthy_field_def isDuplicateIncomingText_def stopTyping_def emit_def after_hello_eq
        new_processor_def js_or_def at_time_def Let_def)
  have n: "after_hello\<lparr>isTypingActive := False, typingTimer := None,
          emitted := emitted after_hello @ [TYPING_STOP]\<rparr> \<noteq> after_hello"
  proof
    assume "after_hello\<lparr>isTypingActive := False, typingTimer := None,
          emitted := emitted after_hello @ [TYPING_STOP]\<rparr> = after_hello"
    then have "isTypingActive (after_hello\<lparr>isTypingActive := False, typingTimer := None,
          emitted := emitted after_hello @ [TYPING_STOP]\<rparr>) = isTypingActive after_hello"
      by simp
    then show False by (simp add: after_hello_eq)
  qed
  have w: "''Hello'' \<in> set (recentIncomingTexts after_hello)"
    by (simp add: after_hello_eq)
  show ?thesis
    using n w by (simp add: a b emitted_since_def)
qed

lemma stopTyping_emitted:
  "\<exists>xs. emitted (stopTyping s) = emitted s @ xs \<and> filter isMessageUpdated xs = []"
  by (simp add: stopTyping_def emit_def Let_def)

lemma emitted_since_append:
  "emitted s' = emitted s @ xs \<Longrightarrow> emitted_since s s' = xs"
  by (simp add: emitted_since_def)

lemma appendStreamContent_absent:
  "streams (appendStreamContent e i c s) k = None \<longleftrightarrow> streams s k = None"
  by (simp add: appendStreamContent_def emit_def Let_def split: option.splits)

lemma applyPendingDeltas_absent:
  "streams (applyPendingDeltas e i s) k = None \<longleftrightarrow> streams s k = None"
proof (induction e i s rule: applyPendingDeltas.induct)
  case (1 e i s)
  show ?case
  proof (cases "map_of (pendingDeltas s) (nextExpectedSeq s)")
    case None
    then show ?thesis by (simp add: applyPendingDeltas.simps[of e i s])
  next
    case (Some c)
    have "streams (applyPendingStep e i c s) k = None \<longleftrightarrow> streams s k = None"
      by (simp add: applyPendingStep_def Let_def appendStreamContent_absent)
    with 1[OF Some] Some show ?thesis
      by (simp add: applyPendingDeltas.simps[of e i s])
  qed
qed

lemma processDeltaSequence_absent:
  "streams (processDeltaSequence e q c s) k = None \<longleftrightarrow> streams s k = None"
  by (simp add: processDeltaSequence_def Let_def applyPendingDeltas_absent
      appendStreamContent_absent)

lemma initializeSyntheticStream_streams:
  "streams (initializeSyntheticStream e raw s)
     = (streams s)(getMessageIdFromRaw raw \<mapsto> \<lparr>s_text = [], s_timestamp = env_now e\<rparr>)"
  by (simp add: initializeSyntheticStream_def Let_def processQueue_stream_fields
      resetStreamState_def)

lemma processDelta_absent:
  assumes "streams s (Some mid) = None" "getMessageIdFromRaw raw \<noteq> Some mid"
  shows "streams (processDelta e raw s) (Some mid) = None"
proof (cases "case r_seq raw of Some v \<Rightarrow> v | None \<Rightarrow> JSUndefined")
  case (JSNumber q)
  have i: "streams (initializeSyntheticStream e raw s) (Some mid) = None"
    using assms by (simp add: initializeSyntheticStream_streams)
  show ?thesis
    using JSNumber assms(1) i
    by (simp add: processDelta_def Let_def processDeltaSequence_absent
        handleFirstDelta_stream_fields)
qed (simp_all add: processDelta_def Let_def assms(1))

lemma processStreamStart_absent:
  assumes "streams s (Some mid) = None" "getMessageIdFromRaw raw \<noteq> Some mid"
  shows "streams (processStreamStart e raw s) (Some mid) = None"
  using assms
  by (simp add: processStreamStart_def emit_def resetStreamState_def Let_def
      split: option.splits)

lemma rememberIncomingText_streams:
  "streams (rememberIncomingText t s) = streams s"
  by (simp add: rememberIncomingText_def Let_def)

lemma cleanupStream_absent:
  "streams s k = None \<Longrightarrow> streams (cleanupStream i s) k = None"
  by (simp add: cleanupStream_def resetStreamState_def Let_def)

lemma processStreamEnd_absent:
  assumes "streams s k = None"
  shows "streams (processStreamEnd e raw s) k = None"
proof (cases "getMessageIdFromRaw raw")
  case None
  then show ?thesis using assms by (simp add: processStreamEnd_def emit_def)
next
  case (Some i)
  define s1 where "s1 = (if isTypingActive s \<or> isThinkingActive s then stopTyping s else s)"
  have "streams s1 k = None"
    using assms by (simp add: s1_def stopTyping_stream_fields)
  then show ?thesis
    using Some
    by (simp add: processStreamEnd_def s1_def[symmetric] Let_def rememberIncomingText_streams
        cleanupStream_absent emit_def)
qed

lemma processUserMessage_streams:
  "streams (processUserMessage e raw s) = streams s"
  by (simp add: processUserMessage_def Let_def emit_def processQueue_stream_fields
      stopTyping_stream_fields)

lemma handleTypingIndicator_streams:
  "streams (handleTypingIndicator raw s) = streams s"
  by (simp add: handleTypingIndicator_def Let_def emit_def)

lemma process_absent:
  assumes "streams s (Some mid) = None"
    and "extractMessageType raw \<in> {''stream_start'', ''delta''}
           \<longrightarrow> getMessageIdFromRaw raw \<noteq> Some mid"
  shows "streams (process e raw s) (Some mid) = None"
  using assms
  by (simp add: process_def Let_def processUserMessage_streams processStreamStart_absent
      processDelta_absent processStreamEnd_absent handleTypingIndicator_streams emit_def)

lemma processBatch_absent:
  assumes "streams s (Some mid) = None"
    and "\<forall>ef\<in>set fs. extractMessageType (snd ef) \<in> {''stream_start'', ''delta''}
           \<longrightarrow> getMessageIdFromRaw (snd ef) \<noteq> Some mid"
  shows "streams (processBatch fs s) (Some mid) = None"
  using assms
proof (induction fs arbitrary: s)
  case Nil
  then show ?case by simp
next
  case (Cons a fs)
  obtain e f where a: "a = (e, f)" by (cases a)
  have "streams (process e f s) (Some mid) = None"
    using Cons.prems by (intro process_absent) (simp_all add: a)
  then have "streams (processBatch fs (process e f s)) (Some mid) = None"
    using Cons.prems(2) by (intro Cons.IH) simp_all
  then show ?case by (simp add: a)
qed

lemma stream_end_final_update:
  assumes "extractMessageType raw = ''stream_end''" "getMessageIdFromRaw raw = Some mid"
  shows "filter isMessageUpdated (emitted_since s (process e raw s))
      = [MESSAGE_UPDATED (Some mid) (case streams s (Some mid) of Some d \<Rightarrow> s_text d | None \<Rightarrow> [])
           Delivered (env_now e)]"
proof -
  define s1 where "s1 = (if isTypingActive s \<or> isThinkingActive s then stopTyping s else s)"
  define t where "t = (case streams s (Some mid) of Some d \<Rightarrow> s_text d | None \<Rightarrow> [])"
  have "\<exists>xs. emitted s1 = emitted s @ xs \<and> filter isMessageUpdated xs = []"
    using stopTyping_emitted[of s] by (cases "isTypingActive s \<or> isThinkingActive s")
      (simp_all add: s1_def)
  then obtain xs where xs: "emitted s1 = emitted s @ xs" "filter isMessageUpdated xs = []"
    by blast
  have st: "streams s1 = streams s"
    by (simp add: s1_def stopTyping_stream_fields)
  have "emitted (process e raw s)
      = emitted s @ xs @ [MESSAGE_UPDATED (Some mid) t Delivered (env_now e)]"
    using xs(1)
    by (simp add: process_def assms processStreamEnd_def s1_def[symmetric] Let_def st
        t_def[symmetric] rememberIncomingText_def cleanupStream_def resetStreamState_def emit_def)
  then have "emitted_since s (process e raw s)
      = xs @ [MESSAGE_UPDATED (Some mid) t Delivered (env_now e)]"
    by (rule emitted_since_append)
  then show ?thesis
    by (simp add: xs(2) t_def)
qed

text \<open>
  Claim C7.  A \<^verbatim>\<open>stream_end\<close> carrying an id emits exactly one message-updated event, for
  that id, with status delivered; its text is the text accumulated in the stream record
  held under the id, and empty when no record is held.  No record is held when no earlier
  frame was a \<^verbatim>\<open>stream_start\<close> or a delta carrying the id (a delta that arrives while no
  stream is active creates the record of a synthetic stream under its own id).  A
  \<^verbatim>\<open>stream_end\<close> with no id emits an error event and nothing else.
\<close>

theorem C7_stream_end_final_update:
  assumes "extractMessageType raw = ''stream_end''"
  shows "(getMessageIdFromRaw raw = Some mid \<longrightarrow>
            filter isMessageUpdated (emitted_since s (process e raw s))
              = [MESSAGE_UPDATED (Some mid)
                   (case streams s (Some mid) of Some d \<Rightarrow> s_text d | None \<Rightarrow> [])
                   Delivered (env_now e)]) \<and>
         (getMessageIdFromRaw raw = Some mid \<and>
          s = processBatch fs (new_processor md td en tt) \<and>
          (\<forall>ef\<in>set fs. extractMessageType (snd ef) \<in> {''stream_start'', ''delta''}
                          \<longrightarrow> getMessageIdFromRaw (snd ef) \<noteq> Some mid) \<longrightarrow>
            filter isMessageUpdated (emitted_since s (process e raw s))
              = [MESSAGE_UPDATED (Some mid) [] Delivered (env_now e)]) \<and>
         (getMessageIdFromRaw raw = None \<longrightarrow>
            emitted_since s (process e raw s) = [ERROR ''stream_end received without id''])"
proof (intro conjI impI)
  assume "getMessageIdFromRaw raw = Some mid"
  then show "filter isMessageUpdated (emitted_since s (process e raw s))
      = [MESSAGE_UPDATED (Some mid)
           (case streams s (Some mid) of Some d \<Rightarrow> s_text d | None \<Rightarrow> [])
           Delivered (env_now e)]"
    by (rule stream_end_final_update[OF assms])
next
  assume a: "getMessageIdFromRaw raw = Some mid \<and>
          s = processBatch fs (new_processor md td en tt) \<and>
          (\<forall>ef\<in>set fs. extractMessageType (snd ef) \<in> {''stream_start'', ''delta''}
                          \<longrightarrow> getMessageIdFromRaw (snd ef) \<noteq> Some mid)"
  have "streams (new_processor md td en tt) (Some mid) = None"
    by (simp add: new_processor_def)
  then have "streams s (Some mid) = None"
    using a by (simp add: processBatch_absent)
  then show "filter isMessageUpdated (emitted_since s (process e raw s))
      = [MESSAGE_UPDATED (Some mid) [] Delivered (env_now e)]"
    using stream_end_final_update[OF assms, of mid s e] a by simp
next
  assume "getMessageIdFromRaw raw = None"
  then have "emitted (process e raw s) = emitted s @ [ERROR ''stream_end received without id'']"
    by (simp add: process_def assms processStreamEnd_def emit_def)
  then show "emitted_since s (process e raw s) = [ERROR ''stream_end received without id'']"
    by (rule emitted_since_append)
qed

lemma stream_X_eq:
  "stream_X = (new_processor 1000 2000 True 50000)
      \<lparr>streams := [Some ''msg_X'' \<mapsto> \<lparr>s_text = ''Hi'', s_timestamp = 101\<rparr>],
        activeStreamId := Some ''msg_X'', nextExpectedSeq := 2, streamMessageEmitted := True,
        emitted := [MESSAGE_PROCESSED (createStreamingMessage (Some ''msg_X'') 101),
                    MESSAGE_UPDATED (Some ''msg_X'') ''Hi'' Streaming 101]\<rparr>"
  by (simp add: stream_X_def process_def extractMessageType_def delta_frame_def empty_frame_def
      processDelta_def STREAM_INITIAL_SEQUENCE_def new_processor_def
      initializeSyntheticStream_def getMessageIdFromRaw_def js_or_def MESSAGE_ID_PREFIX_def
      resetStreamState_def
      isFirstDelta_def handleFirstDelta_def processQueue_def
      emit_def processDeltaSequence_def appendStreamContent_def applyPendingDeltas.simps
      at_time_def Let_def)

text \<open>On the stream \<^verbatim>\<open>msg_B\<close>, which saw no delta: a \<^verbatim>\<open>stream_end\<close> for the unknown id
  \<^verbatim>\<open>Z\<close>, and one with no id; and the \<^verbatim>\<open>stream_end\<close> of the stream \<^verbatim>\<open>msg_H\<close> after its delta
  \<^verbatim>\<open>Hello\<close>.\<close>

theorem C7_stream_end_final_update_witness:
  "extractMessageType (typed_frame ''stream_end'' (Some ''Z'')) = ''stream_end'' \<and>
   getMessageIdFromRaw (typed_frame ''stream_end'' (Some ''Z'')) = Some ''msg_Z'' \<and>
   stream_B = processBatch [(at_time 100, typed_frame ''stream_start'' (Some ''B''))]
                (new_processor 1000 2000 True 50000) \<and>
   getMessageIdFromRaw (typed_frame ''stream_start'' (Some ''B'')) = Some ''msg_B'' \<and>
   filter isMessageUpdated
     (emitted_since stream_B (process (at_time 300) (typed_frame ''stream_end'' (Some ''Z'')) stream_B))
     = [MESSAGE_UPDATED (Some ''msg_Z'') [] Delivered 300] \<and>
   emitted_since stream_B (process (at_time 300) (typed_frame ''stream_end'' None) stream_B)
     = [ERROR ''stream_end received without id''] \<and>
   filter isMessageUpdated
     (emitted_since
        (processBatch [(at_time 100, typed_frame ''stream_start'' (Some ''H'')),
                       (at_time 101, delta_frame ''Hello'' 1)]
           (new_processor 1000 2000 True 50000))
        (processBatch [(at_time 100, typed_frame ''stream_start'' (Some ''H'')),
                       (at_time 101, delta_frame ''Hello'' 1),
                       (at_time 102, typed_frame ''stream_end'' (Some ''H''))]
           (new_processor 1000 2000 True 50000)))
     = [MESSAGE_UPDATED (Some ''msg_H'') ''Hello'' Delivered 102]"
proof -
  have t: "extractMessageType (typed_frame ''stream_end'' i) = ''stream_end''" for i
    by (simp add: extractMessageType_def typed_frame_def empty_frame_def)
  have i: "getMessageIdFromRaw (typed_frame u (Some ''Z'')) = Some ''msg_Z''"
    "getMessageIdFromRaw (typed_frame u (Some ''B'')) = Some ''msg_B''"
    "getMessageIdFromRaw (typed_frame u (Some ''H'')) = Some ''msg_H''"
    "getMessageIdFromRaw (typed_frame u None) = None" for u
    by (simp_all add: getMessageIdFromRaw_def typed_frame_def empty_frame_def js_or_def
        MESSAGE_ID_PREFIX_def)
  have b: "stream_B = processBatch [(at_time 100, typed_frame ''stream_start'' (Some ''B''))]
                (new_processor 1000 2000 True 50000)"
    by (simp add: stream_B_def)
  define h where "h = (new_processor 1000 2000 True 50000)
      \<lparr>streams := [Some ''msg_H'' \<mapsto> \<lparr>s_text = ''Hello'', s_timestamp = 101\<rparr>],
        activeStreamId := Some ''msg_H'', nextExpectedSeq := 2, streamMessageEmitted := True,
        emitted := [MESSAGE_PROCESSED (createStreamingMessage (Some ''msg_H'') 100),
                    MESSAGE_UPDATED (Some ''msg_H'') ''Hello'' Streaming 101]\<rparr>"
  have h: "processBatch [(at_time 100, typed_frame ''stream_start'' (Some ''H'')),
                       (at_time 101, delta_frame ''Hello'' 1)]
           (new_processor 1000 2000 True 50000) = h"
    "processBatch [(at_time 100, typed_frame ''stream_start'' (Some ''H'')),
                       (at_time 101, delta_frame ''Hello'' 1),
                       (at_time 102, typed_frame ''stream_end'' (Some ''H''))]
           (new_processor 1000 2000 True 50000)
       = process (at_time 102) (typed_frame ''stream_end'' (Some ''H'')) h"
    by (simp_all add: h_def after_hello_step1 after_hello_step2)
  have hs: "streams h (Some ''msg_H'') = Some \<lparr>s_text = ''Hello'', s_timestamp = 101\<rparr>"
    by (simp add: h_def)
  have hyp: "getMessageIdFromRaw (typed_frame ''stream_end'' (Some ''Z'')) = Some ''msg_Z'' \<and>
      stream_B = processBatch [(at_time 100, typed_frame ''stream_start'' (Some ''B''))]
                (new_processor 1000 2000 True 50000) \<and>
      (\<forall>ef\<in>set [(at_time 100, typed_frame ''stream_start'' (Some ''B''))].
          extractMessageType (snd ef) \<in> {''stream_start'', ''delta''}
            \<longrightarrow> getMessageIdFromRaw (snd ef) \<noteq> Some ''msg_Z'')"
    by (intro conjI b) (simp_all add: i)
  have "filter isMessageUpdated
     (emitted_since stream_B (process (at_time 300) (typed_frame ''stream_end'' (Some ''Z'')) stream_B))
     = [MESSAGE_UPDATED (Some ''msg_Z'') [] Delivered (env_now (at_time 300))]"
    using C7_stream_end_final_update[OF t, of "Some ''Z''" "''msg_Z''" stream_B "at_time 300"
        "[(at_time 100, typed_frame ''stream_start'' (Some ''B''))]" 1000 2000 True 50000] hyp
    by blast
  then have 1: "filter isMessageUpdated
     (emitted_since stream_B (process (at_time 300) (typed_frame ''stream_end'' (Some ''Z'')) stream_B))
     = [MESSAGE_UPDATED (Some ''msg_Z'') [] Delivered 300]"
    by (simp add: at_time_def)
  have 2: "emitted_since stream_B (process (at_time 300) (typed_frame ''stream_end'' None) stream_B)
     = [ERROR ''stream_end received without id'']"
    using C7_stream_end_final_update[OF t, of None "''msg_Z''" stream_B "at_time 300"]
    by (simp add: i)
  have 3: "filter isMessageUpdated
     (emitted_since h (process (at_time 102) (typed_frame ''stream_end'' (Some ''H'')) h))
     = [MESSAGE_UPDATED (Some ''msg_H'') ''Hello'' Delivered 102]"
    using C7_stream_end_final_update[OF t, of "Some ''H''" "''msg_H''" h "at_time 102"]
    by (simp add: i hs at_time_def)
  show ?thesis
    unfolding h by (intro conjI t i b 1 2 3)
qed

text \<open>The only frame before the \<^verbatim>\<open>stream_end\<close> of \<^verbatim>\<open>X\<close> is a delta, yet the final update
  carries the text \<^verbatim>\<open>Hi\<close>.\<close>

theorem C7_counterexample:
  "extractMessageType ((delta_frame ''Hi'' 1)\<lparr>r_id := Some ''X''\<rparr>) = ''delta'' \<and>
   extractMessageType (typed_frame ''stream_end'' (Some ''X'')) = ''stream_end'' \<and>
   getMessageIdFromRaw (typed_frame ''stream_end'' (Some ''X'')) = Some ''msg_X'' \<and>
   filter isMessageUpdated
     (emitted_since stream_X (process (at_time 102) (typed_frame ''stream_end'' (Some ''X'')) stream_X))
     = [MESSAGE_UPDATED (Some ''msg_X'') ''Hi'' Delivered 102]"
  by (simp add: stream_X_eq emitted_since_def process_def extractMessageType_def typed_frame_def
      delta_frame_def empty_frame_def
      processStreamEnd_def getMessageIdFromRaw_def js_or_def MESSAGE_ID_PREFIX_def
      cleanupStream_def resetStreamState_def rememberIncomingText_def emit_def
      STREAM_INITIAL_SEQUENCE_def new_processor_def at_time_def Let_def)

lemma typing_start_dropped_once_applied:
  "truthy (activeStreamId s) \<Longrightarrow> nextExpectedSeq s > STREAM_INITIAL_SEQUENCE
   \<Longrightarrow> handleTypingIndicator raw s = s"
  by (simp add: handleTypingIndicator_def)

lemma typing_start_raised_before_first_delta:
  "enableTypingIndicator s \<Longrightarrow> nextExpectedSeq s = STREAM_INITIAL_SEQUENCE
   \<Longrightarrow> emitted (handleTypingIndicator raw s)
       = emitted s @ [if r_from raw = Some ''ai-assistant'' then THINKING_START else TYPING_START]"
  by (simp add: handleTypingIndicator_def emit_def Let_def)

text \<open>
  Claim C8.  The guard of \<^verbatim>\<open>_handleTypingIndicator\<close> is \<^verbatim>\<open>nextExpectedSeq > 1\<close>: it drops
  \<^verbatim>\<open>typing_start\<close> once a delta has been applied
  (\<open>typing_start_dropped_once_applied\<close>) and raises the indicator while none has arrived
  (\<open>typing_start_raised_before_first_delta\<close>).  A delta that arrived out of order and is
  only buffered does not move \<^verbatim>\<open>nextExpectedSeq\<close>: after \<^verbatim>\<open>stream_start{id: "B"}\<close> and
  \<^verbatim>\<open>{v: "!", seq: 3}\<close>, a \<^verbatim>\<open>typing_start\<close> raises the typing indicator.
\<close>

theorem C8_typing_after_buffered_delta:
  "pendingDeltas (process (at_time 101) (delta_frame ''!'' 3) stream_B) = [(3, ''!'')] \<and>
   \<not> isTypingActive (process (at_time 101) (delta_frame ''!'' 3) stream_B) \<and>
   isTypingActive (process (at_time 102) (typed_frame ''typing_start'' None)
                    (process (at_time 101) (delta_frame ''!'' 3) stream_B)) \<and>
   emitted_since (process (at_time 101) (delta_frame ''!'' 3) stream_B)
     (process (at_time 102) (typed_frame ''typing_start'' None)
        (process (at_time 101) (delta_frame ''!'' 3) stream_B)) = [TYPING_START]"
proof -
  have p: "process (at_time 101) (delta_frame ''!'' 3) stream_B
      = stream_B\<lparr>pendingDeltas := [(3, ''!'')], streamMessageEmitted := True,
          emitted := [MESSAGE_PROCESSED (createStreamingMessage (Some ''msg_B'') 100)]\<rparr>"
    by (simp add: process_def extractMessageType_def delta_frame_def empty_frame_def
        processDelta_def STREAM_INITIAL_SEQUENCE_def stream_B_eq new_processor_def
        isFirstDelta_def handleFirstDelta_def emitDeferredStreamMessage_def processQueue_def
        emit_def processDeltaSequence_def Let_def)
  have q: "process (at_time 102) (typed_frame ''typing_start'' None)
       (stream_B\<lparr>pendingDeltas := [(3, ''!'')], streamMessageEmitted := True,
          emitted := [MESSAGE_PROCESSED (createStreamingMessage (Some ''msg_B'') 100)]\<rparr>)
      = stream_B\<lparr>pendingDeltas := [(3, ''!'')], streamMessageEmitted := True,
          isTypingActive := True, typingTimer := Some (StopTypingAfter 50000),
          emitted := [MESSAGE_PROCESSED (createStreamingMessage (Some ''msg_B'') 100),
                      TYPING_START]\<rparr>"
    by (simp add: process_def extractMessageType_def typed_frame_def empty_frame_def
        handleTypingIndicator_def STREAM_INITIAL_SEQUENCE_def stream_B_eq new_processor_def
        emit_def Let_def)
  show ?thesis
    unfolding p q by (simp add: emitted_since_def stream_B_eq new_processor_def)
qed

section \<open>Retry policy and reconnection\<close>








lemma scheduleReconnect_fields:
  "ws_status (scheduleReconnect A u m) = Reconnecting \<and>
   reconnectTimer (scheduleReconnect A u m)
     = Some (case retryStrategy m of Some r \<Rightarrow> getDelay A r None u | None \<Rightarrow> reconnectInterval m)"
  by (simp add: scheduleReconnect_def ws_emit_def retry_next_def Let_def split: option.splits)

text \<open>
  Claim C5.  After the close handler the state is reconnecting, with the retry timer
  armed, exactly when the state before was connected, \<^verbatim>\<open>autoReconnect\<close> is set and
  \<^verbatim>\<open>reconnectAttempts < maxReconnectAttempts\<close>; otherwise it is disconnected and no timer
  is armed by the call.
\<close>

theorem C5_reconnect_iff:
  "(ws_status (handleDisconnect A u m) = Reconnecting \<longleftrightarrow> reconnectAllowed m) \<and>
   (ws_status (handleDisconnect A u m) = Disconnected \<longleftrightarrow> \<not> reconnectAllowed m) \<and>
   reconnectTimer (handleDisconnect A u m)
     = (if reconnectAllowed m
        then Some (case retryStrategy m of
                     Some r \<Rightarrow> getDelay A r None u
                   | None \<Rightarrow> reconnectInterval m)
        else reconnectTimer m)"
proof (cases "reconnectAllowed m")
  case True
  define m2 where "m2 = ws_emit WS_DISCONNECTED (ws_emit (CONNECTION_STATUS_CHANGED Disconnected)
      (stopPingInterval (m\<lparr>ws_status := Disconnected, isRegistered := False\<rparr>)))"
  have f: "retryStrategy m2 = retryStrategy m" "reconnectInterval m2 = reconnectInterval m"
    by (simp_all add: m2_def ws_emit_def stopPingInterval_def)
  from True have "handleDisconnect A u m = scheduleReconnect A u m2"
    by (simp add: handleDisconnect_def reconnectAllowed_def m2_def ws_emit_def
        stopPingInterval_def Let_def)
  with True show ?thesis
    by (simp add: scheduleReconnect_fields f split: option.splits)
next
  case False
  then have "handleDisconnect A u m
      = ws_emit WS_DISCONNECTED (ws_emit (CONNECTION_STATUS_CHANGED Disconnected)
          (stopPingInterval (m\<lparr>ws_status := Disconnected, isRegistered := False\<rparr>)))"
    by (auto simp: handleDisconnect_def reconnectAllowed_def ws_emit_def stopPingInterval_def
        Let_def)
  with False show ?thesis
    by (simp add: ws_emit_def stopPingInterval_def)
qed

text \<open>A connected manager reconnects after 1000 ms; a connecting one, one out of attempts
  and one with \<^verbatim>\<open>autoReconnect\<close> off stay disconnected.\<close>

theorem C5_reconnect_iff_witness:
  "reconnectAllowed example_manager \<and>
   ws_status (handleDisconnect exact_arith 0 example_manager) = Reconnecting \<and>
   reconnectTimer (handleDisconnect exact_arith 0 example_manager) = Some 1000 \<and>
   \<not> reconnectAllowed (example_manager\<lparr>ws_status := Connecting\<rparr>) \<and>
   ws_status (handleDisconnect exact_arith 0 (example_manager\<lparr>ws_status := Connecting\<rparr>))
     = Disconnected \<and>
   ws_status (handleDisconnect exact_arith 0 (example_manager\<lparr>reconnectAttempts := 3\<rparr>))
     = Disconnected \<and>
   ws_status (handleDisconnect exact_arith 0 (example_manager\<lparr>autoReconnect := False\<rparr>))
     = Disconnected"
proof -
  have a: "reconnectAllowed example_manager"
    "\<not> reconnectAllowed (example_manager\<lparr>ws_status := Connecting\<rparr>)"
    "\<not> reconnectAllowed (example_manager\<lparr>reconnectAttempts := 3\<rparr>)"
    "\<not> reconnectAllowed (example_manager\<lparr>autoReconnect := False\<rparr>)"
    by (simp_all add: reconnectAllowed_def example_manager_def)
  have d: "getDelay exact_arith (example_retry 2) None 0 = 1000"
    by (simp add: getDelay_def example_retry_def exact_arith_def Let_def)
  show ?thesis
    using a C5_reconnect_iff[of exact_arith 0 example_manager]
      C5_reconnect_iff[of exact_arith 0 "example_manager\<lparr>ws_status := Connecting\<rparr>"]
      C5_reconnect_iff[of exact_arith 0 "example_manager\<lparr>reconnectAttempts := 3\<rparr>"]
      C5_reconnect_iff[of exact_arith 0 "example_manager\<lparr>autoReconnect := False\<rparr>"]
    by (simp add: d example_manager_def)
qed

section \<open>Quota recovery of the store\<close>

lemma toRemove_ceil: "toRemove items = (length items + 3) div 4"
proof -
  have "\<lceil>of_nat (length items) * (1 / 4 :: rat)\<rceil> = - (- int (length items) div 4)"
    using ceiling_divide_eq_div[of "int (length items)" 4, where ?'a = rat] by simp
  then show ?thesis
    unfolding toRemove_def by (simp add: nat_eq_iff) presburger
qed

lemma length_quotaItems: "length (quotaItems st) = length (getAllKeys st)"
  by (simp add: quotaItems_def)

lemma length_evicted: "length (evicted st) = (length (getAllKeys st) + 3) div 4"
proof -
  have "(length (getAllKeys st) + 3) div 4 \<le> length (getAllKeys st)" by presburger
  then show ?thesis
    by (simp add: evicted_def toRemove_ceil length_quotaItems min_def)
qed

lemma map_of_removeItems:
  "map_of (foldl (\<lambda>s key. removeItem key s) st ks) k = (if k \<in> set ks then None else map_of st k)"
  by (induction ks arbitrary: st) (auto simp: removeItem_def delete_conv')

lemma sorted_take_drop:
  assumes "sorted (map f ys)"
  shows "\<forall>a\<in>set (take t ys). \<forall>b\<in>set (drop t ys). f a \<le> f b"
proof -
  have "sorted (map f (take t ys) @ map f (drop t ys))"
    using assms by (simp flip: map_append)
  then show ?thesis by (auto simp: sorted_append)
qed

lemma quotaItems_shape: "(k, d) \<in> set (quotaItems st) \<Longrightarrow> d = itemOrEmpty st k \<and> k \<in> set (getAllKeys st)"
  by (auto simp: quotaItems_def)

lemma evicted_oldest:
  assumes "k \<in> set (evicted st)" "k' \<in> set (getAllKeys st)" "k' \<notin> set (evicted st)"
  shows "timestampOrZero (itemOrEmpty st k) \<le> timestampOrZero (itemOrEmpty st k')"
proof -
  let ?f = "\<lambda>(key, d). timestampOrZero d"
  let ?ys = "sort_key ?f (quotaItems st)"
  let ?t = "toRemove (quotaItems st)"
  from assms(1) obtain d where kd: "(k, d) \<in> set (take ?t ?ys)"
    by (auto simp: evicted_def)
  then have "(k, d) \<in> set (quotaItems st)"
    using in_set_takeD by fastforce
  then have d: "d = itemOrEmpty st k" by (simp add: quotaItems_shape)
  have "(k', itemOrEmpty st k') \<in> set ?ys"
    using assms(2) by (auto simp: quotaItems_def)
  then have "(k', itemOrEmpty st k') \<in> set (take ?t ?ys) \<union> set (drop ?t ?ys)"
    by (metis append_take_drop_id set_append)
  moreover have "(k', itemOrEmpty st k') \<notin> set (take ?t ?ys)"
    using assms(3) by (force simp: evicted_def)
  ultimately have k': "(k', itemOrEmpty st k') \<in> set (drop ?t ?ys)" by blast
  have "sorted (map ?f ?ys)" by simp
  from sorted_take_drop[OF this, of ?t] kd k' have "?f (k, d) \<le> ?f (k', itemOrEmpty st k')"
    by blast
  then show ?thesis by (simp add: d)
qed

lemma evicted_subset: "set (evicted st) \<subseteq> set (getAllKeys st)"
proof
  fix k assume "k \<in> set (evicted st)"
  then obtain d where "(k, d) \<in> set (take (toRemove (quotaItems st))
      (sort_key (\<lambda>(key, d). timestampOrZero d) (quotaItems st)))"
    by (auto simp: evicted_def)
  then have "(k, d) \<in> set (quotaItems st)"
    using in_set_takeD by fastforce
  then show "k \<in> set (getAllKeys st)" by (simp add: quotaItems_shape)
qed

lemma evicted_ascending:
  "sorted (map (\<lambda>k. timestampOrZero (itemOrEmpty st k)) (evicted st))"
proof -
  let ?f = "\<lambda>(key, d). timestampOrZero d"
  let ?zs = "take (toRemove (quotaItems st)) (sort_key ?f (quotaItems st))"
  have "\<forall>z\<in>set ?zs. ?f z = timestampOrZero (itemOrEmpty st (fst z))"
  proof
    fix z assume "z \<in> set ?zs"
    then have "z \<in> set (quotaItems st)" using in_set_takeD by fastforce
    then have "(fst z, snd z) \<in> set (quotaItems st)" by simp
    then have "snd z = itemOrEmpty st (fst z)" by (simp add: quotaItems_shape)
    then show "?f z = timestampOrZero (itemOrEmpty st (fst z))"
      by (simp add: case_prod_beta)
  qed
  then have "map (\<lambda>k. timestampOrZero (itemOrEmpty st k)) (evicted st) = map ?f ?zs"
    by (simp add: evicted_def)
  moreover have "sorted (map ?f ?zs)"
    by (simp add: sorted_wrt_take flip: take_map)
  ultimately show ?thesis by simp
qed

lemma quota_eviction_aborted:
  "quotaThrows (quotaItems st) \<Longrightarrow> handleQuotaExceeded st = st"
  by (simp add: handleQuotaExceeded_def)

lemma itemOrEmpty_entry:
  "itemOrEmpty st k = Unparseable \<longleftrightarrow> map_of st k = Some Unparseable"
  "itemOrEmpty st k = JsonNull \<longleftrightarrow> map_of st k = Some JsonNull"
  by (simp_all add: itemOrEmpty_def split: option.splits)

lemma quotaThrows_entries:
  "quotaThrows (quotaItems st) \<longleftrightarrow>
     (\<exists>k\<in>set (getAllKeys st). map_of st k = Some Unparseable) \<or>
     (2 \<le> length (getAllKeys st) \<and> (\<exists>k\<in>set (getAllKeys st). map_of st k = Some JsonNull))"
  by (simp add: quotaThrows_def quotaItems_def list_ex_iff itemOrEmpty_entry)

text \<open>
  Claim C9, as amended.  When the write fails with quota exhaustion, no prefixed entry is
  unparseable and, if there are two or more prefixed entries, none is the JSON literal
  \<^verbatim>\<open>null\<close>, then \<^verbatim>\<open>set\<close> removes the oldest quarter, rounded up, of the prefixed entries:
  the removed keys are prefixed keys, listed in ascending envelope timestamp (a missing
  timestamp counts as 0), and none is newer than a prefixed key that stays.  If a prefixed
  entry is unparseable, or one of two or more is \<^verbatim>\<open>null\<close>, nothing is removed.  In neither
  case is the write retried: every entry of the store is afterwards either removed or what
  it was, so the value of the failed write is not stored.
\<close>

theorem C9_quota_evicts_without_retry:
  assumes "setItem st (getFullKey key) (JsonObject (Some storage_version) (Some now) (Some v))
             = Inl QuotaExceededError"
  shows "((\<forall>k\<in>set (getAllKeys st). map_of st k \<noteq> Some Unparseable) \<and>
          (2 \<le> length (getAllKeys st)
             \<longrightarrow> (\<forall>k\<in>set (getAllKeys st). map_of st k \<noteq> Some JsonNull)) \<longrightarrow>
            storage_set setItem now key v st = foldl (\<lambda>s k. removeItem k s) st (evicted st) \<and>
            length (evicted st) = (length (getAllKeys st) + 3) div 4 \<and>
            set (evicted st) \<subseteq> set (getAllKeys st) \<and>
            sorted (map (\<lambda>k. timestampOrZero (itemOrEmpty st k)) (evicted st)) \<and>
            (\<forall>k\<in>set (evicted st). \<forall>k'\<in>set (getAllKeys st) - set (evicted st).
               timestampOrZero (itemOrEmpty st k) \<le> timestampOrZero (itemOrEmpty st k')) \<and>
            (\<forall>k. map_of (storage_set setItem now key v st) k
                   = (if k \<in> set (evicted st) then None else map_of st k))) \<and>
         ((\<exists>k\<in>set (getAllKeys st). map_of st k = Some Unparseable) \<or>
          (2 \<le> length (getAllKeys st) \<and>
           (\<exists>k\<in>set (getAllKeys st). map_of st k = Some JsonNull)) \<longrightarrow>
            storage_set setItem now key v st = st)"
proof (intro conjI impI)
  assume "(\<exists>k\<in>set (getAllKeys st). map_of st k = Some Unparseable) \<or>
          (2 \<le> length (getAllKeys st) \<and>
           (\<exists>k\<in>set (getAllKeys st). map_of st k = Some JsonNull))"
  then have "quotaThrows (quotaItems st)"
    by (simp only: quotaThrows_entries)
  then show "storage_set setItem now key v st = st"
    using assms by (simp add: storage_set_def quota_eviction_aborted Let_def)
next
  assume "(\<forall>k\<in>set (getAllKeys st). map_of st k \<noteq> Some Unparseable) \<and>
          (2 \<le> length (getAllKeys st)
             \<longrightarrow> (\<forall>k\<in>set (getAllKeys st). map_of st k \<noteq> Some JsonNull))"
  then have "\<not> quotaThrows (quotaItems st)"
    unfolding quotaThrows_entries by blast
  then have a: "storage_set setItem now key v st = foldl (\<lambda>s k. removeItem k s) st (evicted st)"
    using assms by (simp add: storage_set_def handleQuotaExceeded_def Let_def)
  show "storage_set setItem now key v st = foldl (\<lambda>s k. removeItem k s) st (evicted st)"
    by (rule a)
  show "length (evicted st) = (length (getAllKeys st) + 3) div 4"
    by (rule length_evicted)
  show "set (evicted st) \<subseteq> set (getAllKeys st)"
    by (rule evicted_subset)
  show "sorted (map (\<lambda>k. timestampOrZero (itemOrEmpty st k)) (evicted st))"
    by (rule evicted_ascending)
  show "\<forall>k\<in>set (evicted st). \<forall>k'\<in>set (getAllKeys st) - set (evicted st).
               timestampOrZero (itemOrEmpty st k) \<le> timestampOrZero (itemOrEmpty st k')"
    using evicted_oldest[of _ st] by blast
  show "\<forall>k. map_of (storage_set setItem now key v st) k
                   = (if k \<in> set (evicted st) then None else map_of st k)"
    unfolding a by (simp add: map_of_removeItems)
qed

lemma example_store_keys:
  "getAllKeys example_store
     = [''weni:webchat:a'', ''weni:webchat:b'', ''weni:webchat:c'', ''weni:webchat:d'',
        ''weni:webchat:e'']"
  by (simp add: getAllKeys_def example_store_def startsWith_def storage_prefix_def)

lemma example_store_evicted:
  "evicted example_store = [''weni:webchat:b'', ''weni:webchat:d'']"
  by (simp add: evicted_def toRemove_ceil quotaItems_def example_store_keys itemOrEmpty_def)
     (simp add: example_store_def)

lemma example_store_full:
  "capacity_backend 6 example_store (getFullKey ''f'') example_entry = Inl QuotaExceededError"
  by (simp add: capacity_backend_def example_store_def getFullKey_def startsWith_def
      storage_prefix_def Let_def)

lemma example_store_no_throw: "\<not> quotaThrows (quotaItems example_store)"
  by (simp add: quotaThrows_def quotaItems_def example_store_keys itemOrEmpty_def)
     (simp add: example_store_def)

lemma example_store_after:
  "foldl (\<lambda>s k. removeItem k s) example_store (evicted example_store)
     = [(''weni:webchat:a'', JsonObject (Some ''1.0.0'') (Some 40) (Some ''A'')),
        (''other'', Unparseable),
        (''weni:webchat:c'', JsonObject (Some ''1.0.0'') (Some 30) (Some ''C'')),
        (''weni:webchat:e'', JsonObject (Some ''1.0.0'') (Some 50) (Some ''E''))]"
  by (simp add: example_store_evicted removeItem_def) (simp add: example_store_def)

lemma example_store_entries:
  "(\<forall>k\<in>set (getAllKeys example_store). map_of example_store k \<noteq> Some Unparseable) \<and>
   (\<forall>k\<in>set (getAllKeys example_store). map_of example_store k \<noteq> Some JsonNull)"
  by (simp add: example_store_keys) (simp add: example_store_def)

lemma null_store_keys: "getAllKeys null_store = [''weni:webchat:a'', ''weni:webchat:b'']"
  by (simp add: getAllKeys_def null_store_def startsWith_def storage_prefix_def)

lemma null_store_full:
  "capacity_backend 2 null_store (getFullKey ''f'') example_entry = Inl QuotaExceededError"
  by (simp add: capacity_backend_def null_store_def getFullKey_def startsWith_def
      storage_prefix_def Let_def)

text \<open>The example store is full at 6 entries: of its 5 prefixed entries the 2 oldest go.
  The store holding \<^verbatim>\<open>null\<close> is full at 2 entries: nothing goes.\<close>

theorem C9_quota_evicts_without_retry_witness:
  "capacity_backend 6 example_store (getFullKey ''f'') example_entry = Inl QuotaExceededError \<and>
   list_all (\<lambda>k. map_of example_store k \<noteq> Some Unparseable \<and>
                  map_of example_store k \<noteq> Some JsonNull) (getAllKeys example_store) \<and>
   length (getAllKeys example_store) = 5 \<and>
   evicted example_store = [''weni:webchat:b'', ''weni:webchat:d''] \<and>
   storage_set (capacity_backend 6) 60 ''f'' ''F'' example_store
     = [(''weni:webchat:a'', JsonObject (Some ''1.0.0'') (Some 40) (Some ''A'')),
        (''other'', Unparseable),
        (''weni:webchat:c'', JsonObject (Some ''1.0.0'') (Some 30) (Some ''C'')),
        (''weni:webchat:e'', JsonObject (Some ''1.0.0'') (Some 50) (Some ''E''))] \<and>
   capacity_backend 2 null_store (getFullKey ''f'') example_entry = Inl QuotaExceededError \<and>
   length (getAllKeys null_store) = 2 \<and>
   map_of null_store ''weni:webchat:a'' = Some JsonNull \<and>
   storage_set (capacity_backend 2) 60 ''f'' ''F'' null_store = null_store"
proof -
  note t = C9_quota_evicts_without_retry[of "capacity_backend 6" example_store "''f''" 60 "''F''",
      OF example_store_full[unfolded example_entry_def]]
  from t example_store_entries
  have "storage_set (capacity_backend 6) 60 ''f'' ''F'' example_store
      = foldl (\<lambda>s k. removeItem k s) example_store (evicted example_store)"
    by blast
  then have 1: "storage_set (capacity_backend 6) 60 ''f'' ''F'' example_store
     = [(''weni:webchat:a'', JsonObject (Some ''1.0.0'') (Some 40) (Some ''A'')),
        (''other'', Unparseable),
        (''weni:webchat:c'', JsonObject (Some ''1.0.0'') (Some 30) (Some ''C'')),
        (''weni:webchat:e'', JsonObject (Some ''1.0.0'') (Some 50) (Some ''E''))]"
    by (simp only: example_store_after)
  note u = C9_quota_evicts_without_retry[of "capacity_backend 2" null_store "''f''" 60 "''F''",
      OF null_store_full[unfolded example_entry_def]]
  have n: "map_of null_store ''weni:webchat:a'' = Some JsonNull"
    by (simp add: null_store_def)
  have "2 \<le> length (getAllKeys null_store) \<and>
      (\<exists>k\<in>set (getAllKeys null_store). map_of null_store k = Some JsonNull)"
    using n by (simp add: null_store_keys)
  with u have 2: "storage_set (capacity_backend 2) 60 ''f'' ''F'' null_store = null_store"
    by blast
  have 3: "list_all (\<lambda>k. map_of example_store k \<noteq> Some Unparseable \<and>
                  map_of example_store k \<noteq> Some JsonNull) (getAllKeys example_store)"
    using example_store_entries by (simp add: list_all_iff)
  show ?thesis
    by (intro conjI example_store_full 3 1 2 n null_store_full example_store_evicted)
       (simp_all add: example_store_keys null_store_keys)
qed

text \<open>
  The claim as stated fails: after the eviction the key of the failed write is absent,
  although the backend would now accept the write.
\<close>

theorem C9_counterexample:
  "capacity_backend 6 example_store (getFullKey ''f'') example_entry = Inl QuotaExceededError \<and>
   map_of (storage_set (capacity_backend 6) 60 ''f'' ''F'' example_store) (getFullKey ''f'') = None \<and>
   capacity_backend 6 (storage_set (capacity_backend 6) 60 ''f'' ''F'' example_store)
       (getFullKey ''f'') example_entry
     = Inr (storage_set (capacity_backend 6) 60 ''f'' ''F'' example_store
              @ [(getFullKey ''f'', example_entry)])"
proof -
  have s: "storage_set (capacity_backend 6) 60 ''f'' ''F'' example_store
      = foldl (\<lambda>s k. removeItem k s) example_store (evicted example_store)"
    using example_store_full example_store_no_throw
    by (simp add: storage_set_def handleQuotaExceeded_def example_entry_def Let_def)
  have k: "getFullKey ''f'' = ''weni:webchat:f''"
    by (simp add: getFullKey_def startsWith_def storage_prefix_def)
  show ?thesis
    unfolding s example_store_after
    using example_store_full by (simp add: k capacity_backend_def Let_def)
qed

section \<open>Session identity and conversation log\<close>

lemma isDigit_char_of: "(n::nat) < 10 \<Longrightarrow> isDigit (char_of (48 + n))"
  by (simp add: isDigit_def)

lemma decimal_digits: "decimal n \<noteq> [] \<and> list_all isDigit (decimal n)"
proof (induction n rule: decimal.induct)
  case (1 n)
  show ?case
  proof (cases "n < 10")
    case True
    then show ?thesis
      by (subst (1 2) decimal.simps) (simp add: isDigit_char_of)
  next
    case False
    have "n mod 10 < 10" by simp
    then have "isDigit (char_of (48 + n mod 10))" by (rule isDigit_char_of)
    with False "1.IH" show ?thesis
      by (subst (1 2) decimal.simps) simp
  qed
qed

lemma format_of_parts:
  assumes "ds \<noteq> []" "list_all isDigit ds"
  shows "isValidSessionIdFormat (ds @ ''@'' @ host) \<longleftrightarrow> host \<noteq> [] \<and> \<not> list_ex isLineTerminator host"
proof -
  have at: "\<not> isDigit CHR ''@''" by (simp add: isDigit_def)
  have d: "\<forall>x\<in>set ds. isDigit x" using assms(2) by (simp add: list_all_iff)
  have "takeWhile isDigit (ds @ CHR ''@'' # host) = ds"
    using d at by (simp add: takeWhile_append2)
  moreover have "dropWhile isDigit (ds @ CHR ''@'' # host) = CHR ''@'' # host"
    using d at by (simp add: dropWhile_append2)
  ultimately show ?thesis
    using assms(1) by (simp add: isValidSessionIdFormat_def)
qed

lemma generated_format:
  "isValidSessionIdFormat (generateSessionId e cid) \<longleftrightarrow>
     validClientId e cid \<noteq> [] \<and> \<not> list_ex isLineTerminator (validClientId e cid)"
  unfolding generateSessionId_def
  using decimal_digits[of "se_randomId e"] by (intro format_of_parts) simp_all












lemma safeInteger_of_nat: "n < 2 ^ 53 \<Longrightarrow> safeInteger (of_nat n)"
proof -
  assume "n < 2 ^ 53"
  then have "(of_nat n :: rat) < of_nat (2 ^ 53)" by (simp only: of_nat_less_iff)
  then show ?thesis by (simp add: safeInteger_def)
qed

lemma minus64_of_nat:
  assumes "len < 2 ^ 53" "n \<le> len"
  shows "minus64 A (of_nat len) (of_nat n) = of_nat (len - n)"
proof -
  have "n < 2 ^ 53" using assms by simp
  then show ?thesis
    using assms by (simp add: minus64_def safeInteger_of_nat of_nat_diff)
qed

lemma trimmed_eq:
  assumes "0 < n" "length l1 < 2 ^ 53"
  shows "(if (of_nat n :: rat) \<noteq> 0 \<and> (of_nat n :: rat) > 0 \<and> of_nat (length l1) > (of_nat n :: rat)
          then splice0 (minus64 A (of_nat (length l1)) (of_nat n)) l1 else l1)
         = drop (length l1 - n) l1"
proof (cases "n < length l1")
  case True
  then have "minus64 A (of_nat (length l1)) (of_nat n) = of_nat (length l1 - n)"
    using assms(2) by (simp add: minus64_of_nat)
  then have "splice0 (minus64 A (of_nat (length l1)) (of_nat n)) l1 = drop (length l1 - n) l1"
    by (simp only: splice0_def floor_of_nat nat_int)
  with True assms(1) show ?thesis
    by simp
next
  case False
  then show ?thesis by simp
qed

lemma conversation_after_append:
  assumes "sm_session m = Some s"
  shows "conversationOf (appendToConversation A e msg limit m)
         = (case limit of
              Some (JSNumber q) \<Rightarrow>
                (if q \<noteq> 0 \<and> q > 0 \<and> of_nat (length (conversationOf m @ [msg])) > q
                 then splice0 (minus64 A (of_nat (length (conversationOf m @ [msg]))) q)
                        (conversationOf m @ [msg])
                 else conversationOf m @ [msg])
            | _ \<Rightarrow> conversationOf m @ [msg])"
  using assms
  by (cases "conversation s")
     (simp_all add: appendToConversation_def conversationOf_def getConversation_def
       updateLastActivity_def save_def Let_def split: option.splits js_value.splits)

text \<open>
  Claim C10, as amended.  On a live session whose conversation, with the new message, is
  shorter than \<open>2^32\<close> (the bound of a JavaScript array), \<^verbatim>\<open>appendToConversation(m, {limit})\<close>
  with a positive integer \<open>n\<close> as limit leaves the conversation with \<open>m\<close> appended and
  messages dropped from the front only, down to at most \<open>n\<close> messages.  The last message
  is \<open>m\<close>.  With no limit the conversation is the old one with \<open>m\<close> appended.
\<close>

theorem C10_append_with_limit:
  assumes "sm_session m = Some s"
  shows "(limit = Some (JSNumber (of_nat n)) \<and> 0 < n \<and> length (conversationOf m) + 1 < 2 ^ 32 \<longrightarrow>
            conversationOf (appendToConversation A e msg limit m)
              = drop (length (conversationOf m @ [msg]) - n) (conversationOf m @ [msg]) \<and>
            length (conversationOf (appendToConversation A e msg limit m)) \<le> n \<and>
            conversationOf (appendToConversation A e msg limit m) \<noteq> [] \<and>
            last (conversationOf (appendToConversation A e msg limit m)) = msg) \<and>
         (limit = None \<longrightarrow>
            conversationOf (appendToConversation A e msg limit m) = conversationOf m @ [msg])"
proof (intro conjI impI)
  assume a: "limit = Some (JSNumber (of_nat n)) \<and> 0 < n \<and> length (conversationOf m) + 1 < 2 ^ 32"
  have "(2::nat) ^ 32 \<le> 2 ^ 53" by (rule power_increasing) simp_all
  with a have len: "length (conversationOf m @ [msg]) < 2 ^ 53" by simp
  from a have n: "0 < n" by simp
  have c: "conversationOf (appendToConversation A e msg limit m)
      = drop (length (conversationOf m @ [msg]) - n) (conversationOf m @ [msg])"
    using trimmed_eq[OF n len, of A] a
    by (simp add: conversation_after_append[OF assms])
  show "conversationOf (appendToConversation A e msg limit m)
      = drop (length (conversationOf m @ [msg]) - n) (conversationOf m @ [msg])"
    by (rule c)
  have lt: "length (conversationOf m @ [msg]) - n < length (conversationOf m @ [msg])"
    using n by simp
  show "length (conversationOf (appendToConversation A e msg limit m)) \<le> n"
    unfolding c by simp
  show "conversationOf (appendToConversation A e msg limit m) \<noteq> []"
    unfolding c using lt by simp
  show "last (conversationOf (appendToConversation A e msg limit m)) = msg"
    unfolding c using lt by (simp add: last_drop)
next
  assume "limit = None"
  then show "conversationOf (appendToConversation A e msg limit m) = conversationOf m @ [msg]"
    by (simp add: conversation_after_append[OF assms])
qed

text \<open>Appending \<^verbatim>\<open>c\<close> to \<^verbatim>\<open>[a, b]\<close>: with limit 2, and with no limit.\<close>

theorem C10_append_with_limit_witness:
  "sm_session (example_live [''a'', ''b''])
      = Some ((stored_session 1000)\<lparr>conversation := Some [''a'', ''b'']\<rparr>) \<and>
   conversationOf (example_live [''a'', ''b'']) = [''a'', ''b''] \<and>
   conversationOf (appendToConversation exact_arith (browser ''localhost'') ''c''
      (Some (JSNumber 2)) (example_live [''a'', ''b''])) = [''b'', ''c''] \<and>
   conversationOf (appendToConversation exact_arith (browser ''localhost'') ''c'' None
      (example_live [''a'', ''b''])) = [''a'', ''b'', ''c'']"
proof -
  have s: "sm_session (example_live [''a'', ''b''])
      = Some ((stored_session 1000)\<lparr>conversation := Some [''a'', ''b'']\<rparr>)"
    by (simp add: example_live_def)
  have c: "conversationOf (example_live [''a'', ''b'']) = [''a'', ''b'']"
    by (simp add: conversationOf_def getConversation_def example_live_def)
  have h: "Some (JSNumber 2) = Some (JSNumber (of_nat 2)) \<and> 0 < (2::nat) \<and>
      length (conversationOf (example_live [''a'', ''b''])) + 1 < 2 ^ 32"
    by (simp add: c)
  from C10_append_with_limit[OF s, of "Some (JSNumber 2)" 2 exact_arith "browser ''localhost''"
      "''c''"] h
  have "conversationOf (appendToConversation exact_arith (browser ''localhost'') ''c''
      (Some (JSNumber 2)) (example_live [''a'', ''b'']))
      = drop (length (conversationOf (example_live [''a'', ''b'']) @ [''c'']) - 2)
          (conversationOf (example_live [''a'', ''b'']) @ [''c''])"
    by blast
  then have a: "conversationOf (appendToConversation exact_arith (browser ''localhost'') ''c''
      (Some (JSNumber 2)) (example_live [''a'', ''b''])) = [''b'', ''c'']"
    by (simp add: c)
  from C10_append_with_limit[OF s, of None 0 exact_arith "browser ''localhost''" "''c''"]
  have b: "conversationOf (appendToConversation exact_arith (browser ''localhost'') ''c'' None
      (example_live [''a'', ''b''])) = [''a'', ''b'', ''c'']"
    by (simp add: c)
  show ?thesis by (intro conjI s c a b)
qed

text \<open>The claim as stated fails for the positive limit 2.5: the delete count is
  \<open>3 - 2.5 = 0.5\<close>, exact on doubles and truncated to 0, and three messages remain.\<close>

theorem C10_counterexample:
  "(0 :: rat) < 5 / 2 \<and>
   minus64 exact_arith 3 (5 / 2) = 1 / 2 \<and>
   conversationOf (appendToConversation exact_arith (browser ''localhost'') ''c''
      (Some (JSNumber (5 / 2))) (example_live [''a'', ''b''])) = [''a'', ''b'', ''c''] \<and>
   (5 / 2 :: rat) < of_nat (length (conversationOf
      (appendToConversation exact_arith (browser ''localhost'') ''c'' (Some (JSNumber (5 / 2)))
         (example_live [''a'', ''b'']))))"
proof -
  have s: "sm_session (example_live [''a'', ''b''])
      = Some ((stored_session 1000)\<lparr>conversation := Some [''a'', ''b'']\<rparr>)"
    by (simp add: example_live_def)
  have c: "conversationOf (example_live [''a'', ''b'']) = [''a'', ''b'']"
    by (simp add: conversationOf_def getConversation_def example_live_def)
  have f: "\<lfloor>1 / 2 :: rat\<rfloor> = 0" "\<lfloor>5 / 2 :: rat\<rfloor> = 2" by (rule floor_unique; simp)+
  have m: "minus64 exact_arith 3 (5 / 2) = 1 / 2"
    by (simp add: minus64_def safeInteger_def exact_arith_def f)
  have "conversationOf (appendToConversation exact_arith (browser ''localhost'') ''c''
      (Some (JSNumber (5 / 2))) (example_live [''a'', ''b''])) = [''a'', ''b'', ''c'']"
    by (simp add: conversation_after_append[OF s] c splice0_def m f)
  then show ?thesis using m by simp
qed

end
